theory Spec2Isabelle
  imports Main
begin

section \<open>Errors\<close>

text \<open>
  The sources are Python 2 (\<^verbatim>\<open>unicode\<close>, \<^verbatim>\<open>cStringIO\<close>, integer \<^verbatim>\<open>/\<close>): a \<^verbatim>\<open>str\<close> is a
  byte string, which is exactly a HOL \<open>string\<close> (a list of 8-bit characters).

  Every exception the modelled code can raise is a value of \<open>exn\<close>. \<open>ValidationError\<close>
  comes from \<^verbatim>\<open>spyne.error\<close>, \<open>Fault\<close> from \<^verbatim>\<open>spyne.model.fault\<close> and \<open>Break\<close> from
  \<^verbatim>\<open>spyne.util\<close>; \<open>BinasciiError\<close> is \<^verbatim>\<open>binascii.Error\<close>; the other constructors are
  Python built-ins.
\<close>

datatype exn =
    ValidationError string string
  | Fault string string
  | TypeError string
  | ValueError string
  | AssertionError
  | IOError string
  | BinasciiError string
  | OverflowError
  | KeyError
  | StopIteration
  | Break
  | OtherError string

text \<open>
  Modelled from the spec: the class \<^verbatim>\<open>ValidationError\<close> of \<^verbatim>\<open>spyne.error\<close> is not among
  the sources. The spec says a validation error always carries the offending raw string;
  the first argument of the constructor is that value, the second the message template
  (whose default is used by the one-argument calls). A validation error is a fault.
\<close>

definition default_validation_msg :: string where
  "default_validation_msg = ''The value %r could not be validated.''"

fun is_validation_error :: "exn \<Rightarrow> bool" where
  "is_validation_error (ValidationError obj msg) = True"
| "is_validation_error e = False"

fun is_fault :: "exn \<Rightarrow> bool" where
  "is_fault (ValidationError obj msg) = True"
| "is_fault (Fault code msg) = True"
| "is_fault e = False"

fun offending_value :: "exn \<Rightarrow> string option" where
  "offending_value (ValidationError obj msg) = Some obj"
| "offending_value e = None"

section \<open>Decimal formatting\<close>

text \<open>\<^verbatim>\<open>"%i" % n\<close> and \<^verbatim>\<open>"%d" % n\<close>: the decimal digits of an integer, with a minus sign.\<close>

definition digit_char :: "nat \<Rightarrow> char" where
  "digit_char d = char_of (48 + d)"

function digits_of :: "nat \<Rightarrow> string" where
  "digits_of n = (if n < 10 then [digit_char n] else digits_of (n div 10) @ [digit_char (n mod 10)])"
  by pat_completeness auto
termination
  by (relation "measure (\<lambda>n. n)") auto

declare digits_of.simps [simp del]

definition fmt_i :: "int \<Rightarrow> string" where
  "fmt_i n = (if n < 0 then CHR ''-'' # digits_of (nat (- n)) else digits_of (nat n))"

section \<open>Integer codec (\<^verbatim>\<open>spyne/protocol/_model.py\<close>)\<close>

text \<open>
  The attributes of the model class that \<^verbatim>\<open>integer_from_string\<close> reads. The parser
  \<^verbatim>\<open>int(string)\<close> is Python's built-in; it is a parameter of the model (\<open>None\<close> where
  it raises \<^verbatim>\<open>ValueError\<close>).
\<close>

record integer_attributes =
  max_str_len :: "int option"
  format :: "string option"

definition integer_from_string ::
  "(string \<Rightarrow> int option) \<Rightarrow> integer_attributes \<Rightarrow> string \<Rightarrow> exn + int" where
  "integer_from_string py_int attrs string =
     (case max_str_len attrs of
        Some n \<Rightarrow>
          if int (length string) > n
          then Inl (ValidationError string
                      (''Integer %r longer than '' @ fmt_i n @ '' characters''))
          else (case py_int string of
                  Some v \<Rightarrow> Inr v
                | None \<Rightarrow> Inl (ValidationError string ''Could not cast %r to integer''))
      | None \<Rightarrow>
          (case py_int string of
             Some v \<Rightarrow> Inr v
           | None \<Rightarrow> Inl (ValidationError string ''Could not cast %r to integer'')))"

section \<open>File values (\<^verbatim>\<open>spyne/model/binary.py\<close>)\<close>

text \<open>
  \<^verbatim>\<open>os.path.basename\<close> and \<^verbatim>\<open>os.path.isabs\<close> of \<^verbatim>\<open>posixpath\<close>: the part after the last
  slash, and whether the path starts with a slash.
\<close>

definition basename :: "string \<Rightarrow> string" where
  "basename p = rev (takeWhile (\<lambda>c. c \<noteq> CHR ''/'') (rev p))"

fun isabs :: "string \<Rightarrow> bool" where
  "isabs [] = False"
| "isabs (c # cs) = (c = CHR ''/'')"

text \<open>
  The part of the operating system the file code touches: the files, by path, with their
  contents; the paths that cannot be opened for writing; and what \<^verbatim>\<open>tempfile.mkstemp\<close>
  works from, the temporary directory (\<^verbatim>\<open>gettempdir()\<close>) and the candidate names its
  random name sequence will deliver.
\<close>

record os_env =
  files :: "string \<rightharpoonup> string"
  denied :: "string \<Rightarrow> bool"
  tmpdir :: string
  tmpnames :: "string list"

text \<open>
  \<^verbatim>\<open>tempfile._mkstemp_inner\<close>: the first candidate \<^verbatim>\<open>dir/tmpNAME\<close> that does not exist
  yet is created (exclusively) and returned; when every candidate exists the call raises
  \<^verbatim>\<open>IOError\<close>.
\<close>

fun mkstemp_inner :: "(string \<rightharpoonup> string) \<Rightarrow> string \<Rightarrow> string list \<Rightarrow> exn + string" where
  "mkstemp_inner fs dir [] = Inl (IOError ''No usable temporary file name found'')"
| "mkstemp_inner fs dir (n # ns) =
     (let file = dir @ ''/'' @ ''tmp'' @ n
      in if fs file \<noteq> None then mkstemp_inner fs dir ns else Inr file)"

definition mkstemp :: "os_env \<Rightarrow> exn + (string \<times> os_env)" where
  "mkstemp env =
     (case mkstemp_inner (files env) (tmpdir env) (tmpnames env) of
        Inl e \<Rightarrow> Inl e
      | Inr file \<Rightarrow> Inr (file, env\<lparr>files := (files env)(file \<mapsto> [])\<rparr>))"

text \<open>\<^verbatim>\<open>open(path, 'wb')\<close> creates or truncates the file; \<^verbatim>\<open>f.write(data)\<close> appends to it.\<close>

definition open_wb :: "os_env \<Rightarrow> string \<Rightarrow> exn + os_env" where
  "open_wb env p =
     (if denied env p then Inl (IOError p)
      else Inr (env\<lparr>files := (files env)(p \<mapsto> [])\<rparr>))"

definition file_write :: "os_env \<Rightarrow> string \<Rightarrow> string \<Rightarrow> os_env" where
  "file_write env p d =
     env\<lparr>files := (files env)(p \<mapsto> (case files env p of None \<Rightarrow> d | Some old \<Rightarrow> old @ d))\<rparr>"

fun write_all :: "os_env \<Rightarrow> string \<Rightarrow> string list \<Rightarrow> os_env" where
  "write_all env p [] = env"
| "write_all env p (d # ds) = write_all (file_write env p d) p ds"

text \<open>
  \<^verbatim>\<open>File.Value\<close>. \<open>data\<close> is the optional sequence of byte chunks, \<open>handle\<close> the content
  behind an optional open file object.
\<close>

record file_value =
  name :: "string option"
  path :: "string option"
  type :: string
  data :: "string list option"
  handle :: "string option"

text \<open>
  \<^verbatim>\<open>File.Value.rollover\<close>. The method mutates the value and the file system and may raise
  at several places, so the model returns the exception raised (if any) together with the
  value and the environment as they are at that moment. \<open>f\<close> is the path of the file
  that was opened, which is \<^verbatim>\<open>self.path\<close> on both branches.
\<close>

definition rollover :: "os_env \<Rightarrow> file_value \<Rightarrow> exn option \<times> file_value \<times> os_env" where
  "rollover env self =
     (case data self of
        None \<Rightarrow> (Some (TypeError ''NoneType object is not iterable''), self, env)
      | Some chunks \<Rightarrow>
          (case (case path self of
                   None \<Rightarrow>
                     (case mkstemp env of
                        Inl e \<Rightarrow> Inl e
                      | Inr (p, env1) \<Rightarrow> Inr (p, self\<lparr>path := Some p\<rparr>, env1))
                 | Some p \<Rightarrow>
                     if \<not> isabs p then Inl AssertionError
                     else (case open_wb env p of
                             Inl e \<Rightarrow> Inl e
                           | Inr env1 \<Rightarrow> Inr (p, self, env1))) of
             Inl e \<Rightarrow> (Some e, self, env)
           | Inr (f, self1, env1) \<Rightarrow>
               (let self2 = (if name self1 = None
                             then self1\<lparr>name := Some (basename f)\<rparr>
                             else self1);
                    env2 = write_all env1 f chunks
                in (None, self2\<lparr>data := None\<rparr>, env2))))"

section \<open>Duration codec (\<^verbatim>\<open>spyne/protocol/_model.py\<close>)\<close>

text \<open>
  \<^verbatim>\<open>datetime.timedelta\<close>: days, seconds and microseconds, normalised by the constructor
  so that \<open>0 \<le> seconds < 86400\<close> and \<open>0 \<le> microseconds < 1000000\<close>, the sign being
  carried by \<open>days\<close>, whose magnitude is at most \<open>999999999\<close>.
\<close>

record timedelta =
  days :: int
  seconds :: int
  microseconds :: int

definition timedelta_ok :: "timedelta \<Rightarrow> bool" where
  "timedelta_ok td \<longleftrightarrow>
     - 999999999 \<le> days td \<and> days td \<le> 999999999
     \<and> 0 \<le> seconds td \<and> seconds td < 86400
     \<and> 0 \<le> microseconds td \<and> microseconds td < 1000000"

definition timedelta_new :: "int \<Rightarrow> int \<Rightarrow> int \<Rightarrow> exn + timedelta" where
  "timedelta_new d s us =
     (let s1 = s + us div 1000000;
          us1 = us mod 1000000;
          d1 = d + s1 div 86400;
          s2 = s1 mod 86400
      in if \<bar>d1\<bar> > 999999999 then Inl OverflowError
         else Inr \<lparr>days = d1, seconds = s2, microseconds = us1\<rparr>)"

definition timedelta_neg :: "timedelta \<Rightarrow> exn + timedelta" where
  "timedelta_neg td = timedelta_new (- days td) (- seconds td) (- microseconds td)"

text \<open>
  \<^verbatim>\<open>_total_seconds(td)\<close> is the float nearest to \<open>total_microseconds td / 10\<^sup>6\<close>. The
  encoder uses it in one test only,
  \<^verbatim>\<open>tot_sec != 0 and tot_sec % 86400 == 0 and useconds == 0\<close>.
  The float is zero exactly when the integer is; and where \<^verbatim>\<open>useconds == 0\<close> holds the
  quotient is an integer below \<open>2\<^sup>5\<^sup>3\<close>, which the float represents exactly, so that
  the conjunction has the value it has in exact arithmetic. The model therefore keeps
  the exact total, in microseconds.
\<close>

definition total_microseconds :: "timedelta \<Rightarrow> int" where
  "total_microseconds td = (days td * 86400 + seconds td) * 1000000 + microseconds td"

text \<open>
  \<^verbatim>\<open>duration_to_string\<close>. \<open>retval\<close> is the deque of pieces, joined at the end: each
  conditional \<^verbatim>\<open>append\<close> adds one piece or none. \<^verbatim>\<open>/\<close> is Python 2's integer division.
\<close>

definition duration_to_string :: "timedelta \<Rightarrow> exn + string" where
  "duration_to_string value0 =
     (case (if days value0 < 0
            then (case timedelta_neg value0 of Inl e \<Rightarrow> Inl e | Inr v \<Rightarrow> Inr (v, True))
            else Inr (value0, False)) of
        Inl e \<Rightarrow> Inl e
      | Inr (val, negative) \<Rightarrow>
          (let tot_usec = total_microseconds val;
               secs = seconds val mod 60;
               minutes0 = seconds val div 60;
               hours = minutes0 div 60;
               minutes = minutes0 mod 60;
               useconds = microseconds val;
               retval = [if negative then ''-P'' else ''P'']
                        @ (if days val \<noteq> 0 then [fmt_i (days val) @ ''D''] else [])
           in if tot_usec \<noteq> 0 \<and> tot_usec mod 86400000000 = 0 \<and> useconds = 0
              then Inr (concat retval)
              else
                (let retval = retval @ [''T'']
                       @ (if hours > 0 then [fmt_i hours @ ''H''] else [])
                       @ (if minutes > 0 then [fmt_i minutes @ ''M''] else [])
                       @ (if secs > 0 \<or> useconds > 0
                          then [fmt_i secs]
                               @ (if useconds > 0 then [''.'' @ fmt_i useconds] else [])
                               @ [''S'']
                          else []);
                     retval = retval @ (if length retval = 2 then [''0S''] else [])
                 in Inr (concat retval))))"

text \<open>
  The pieces the encoder appends, in closed form: the day piece, the pieces after the
  \<open>T\<close>, the whole-day test, and the text that results for a non-negative value under a
  given sign prefix. They serve to state properties of \<open>duration_to_string\<close>.
\<close>

definition day_pieces :: "timedelta \<Rightarrow> string list" where
  "day_pieces w = (if days w \<noteq> 0 then [fmt_i (days w) @ ''D''] else [])"

definition time_pieces :: "timedelta \<Rightarrow> string list" where
  "time_pieces w =
     (if seconds w div 60 div 60 > 0 then [fmt_i (seconds w div 60 div 60) @ ''H''] else [])
     @ (if seconds w div 60 mod 60 > 0 then [fmt_i (seconds w div 60 mod 60) @ ''M''] else [])
     @ (if seconds w mod 60 > 0 \<or> microseconds w > 0
        then [fmt_i (seconds w mod 60)]
             @ (if microseconds w > 0 then [''.'' @ fmt_i (microseconds w)] else [])
             @ [''S'']
        else [])"

definition whole_days :: "timedelta \<Rightarrow> bool" where
  "whole_days w \<longleftrightarrow>
     total_microseconds w \<noteq> 0 \<and> total_microseconds w mod 86400000000 = 0 \<and> microseconds w = 0"

definition duration_text :: "string \<Rightarrow> timedelta \<Rightarrow> string" where
  "duration_text sign w =
     (if whole_days w then concat ([sign] @ day_pieces w)
      else concat (([sign] @ day_pieces w @ [''T''] @ time_pieces w)
             @ (if length ([sign] @ day_pieces w @ [''T''] @ time_pieces w) = 2
                then [''0S''] else [])))"

section \<open>Binary codecs (\<^verbatim>\<open>spyne/model/binary.py\<close>)\<close>

subsection \<open>Library functions: \<^verbatim>\<open>binascii\<close> and \<^verbatim>\<open>base64\<close> of Python 2\<close>

text \<open>\<^verbatim>\<open>binascii.hexlify\<close>: two lower-case hexadecimal digits for every byte.\<close>

definition hex_digit :: "nat \<Rightarrow> char" where
  "hex_digit n = ''0123456789abcdef'' ! n"

definition hexlify :: "string \<Rightarrow> string" where
  "hexlify s = concat (map (\<lambda>c. [hex_digit (of_char c div 16), hex_digit (of_char c mod 16)]) s)"

text \<open>
  \<^verbatim>\<open>binascii.unhexlify\<close>: \<^verbatim>\<open>to_int\<close> reads a digit of either case; an odd length and a
  character that is no digit raise \<^verbatim>\<open>TypeError\<close>.
\<close>

definition to_int :: "char \<Rightarrow> nat option" where
  "to_int c =
     (let n = (of_char c :: nat)
      in if 48 \<le> n \<and> n \<le> 57 then Some (n - 48)
         else (let l = (if 65 \<le> n \<and> n \<le> 90 then n + 32 else n)
               in if 97 \<le> l \<and> l \<le> 102 then Some (l - 97 + 10) else None))"

fun unhex_pairs :: "string \<Rightarrow> exn + string" where
  "unhex_pairs (a # b # rest) =
     (case (to_int a, to_int b) of
        (Some topv, Some botv) \<Rightarrow>
          (case unhex_pairs rest of
             Inl e \<Rightarrow> Inl e
           | Inr r \<Rightarrow> Inr (char_of (topv * 16 + botv) # r))
      | _ \<Rightarrow> Inl (TypeError ''Non-hexadecimal digit found''))"
| "unhex_pairs [a] = Inl (TypeError ''Odd-length string'')"
| "unhex_pairs [] = Inr []"

definition unhexlify :: "string \<Rightarrow> exn + string" where
  "unhexlify s =
     (if length s mod 2 \<noteq> 0 then Inl (TypeError ''Odd-length string'') else unhex_pairs s)"

text \<open>
  \<^verbatim>\<open>base64.b64encode\<close>: three bytes become four characters of the alphabet; a last group
  of one or two bytes is padded with \<open>=\<close>. Shifts and masks are written as
  multiplication, division and remainder.
\<close>

definition b64_table :: string where
  "b64_table = ''ABCDEFGHIJKLMNOPQRSTUVWXYZabcdefghijklmnopqrstuvwxyz0123456789+/''"

definition b2a :: "nat \<Rightarrow> char" where
  "b2a n = b64_table ! n"

fun b2a_base64 :: "nat list \<Rightarrow> string" where
  "b2a_base64 (a # b # c # rest) =
     [b2a (a div 4), b2a ((a mod 4) * 16 + b div 16), b2a ((b mod 16) * 4 + c div 64),
      b2a (c mod 64)] @ b2a_base64 rest"
| "b2a_base64 [a, b] =
     [b2a (a div 4), b2a ((a mod 4) * 16 + b div 16), b2a ((b mod 16) * 4), CHR ''='']"
| "b2a_base64 [a] = [b2a (a div 4), b2a ((a mod 4) * 16), CHR ''='', CHR ''='']"
| "b2a_base64 [] = []"

definition b64encode :: "string \<Rightarrow> string" where
  "b64encode s = b2a_base64 (map of_char s)"

text \<open>
  \<^verbatim>\<open>binascii.a2b_base64\<close> of CPython 2.7, the decoder under \<^verbatim>\<open>base64.b64decode\<close>. It is
  lenient: characters outside the alphabet are skipped, a pad character that does not
  end a quad is ignored, and a pad sequence that does end a quad means ``no more input'':
  whatever follows is not read. \<open>a2b\<close> is the decoding table, \<open>find_valid\<close> is
  \<^verbatim>\<open>binascii_find_valid\<close> (for which the pad character counts as valid), and the state of
  the loop is \<open>quad_pos\<close>, \<open>leftchar\<close>, \<open>leftbits\<close> and the bytes written so far.
\<close>

definition a2b :: "char \<Rightarrow> nat option" where
  "a2b c = map_of (zip b64_table [0..<64]) c"

definition b64_valid :: "char \<Rightarrow> bool" where
  "b64_valid c \<longleftrightarrow> (of_char c :: nat) \<le> 127 \<and> (a2b c \<noteq> None \<or> c = CHR ''='')"

fun find_valid :: "string \<Rightarrow> nat \<Rightarrow> char option" where
  "find_valid [] num = None"
| "find_valid (c # s) num =
     (if b64_valid c
      then (if num = 0 then Some c else find_valid s (num - 1))
      else find_valid s num)"

definition a2b_finish :: "nat \<Rightarrow> string \<Rightarrow> exn + string" where
  "a2b_finish leftbits bin_data =
     (if leftbits \<noteq> 0 then Inl (BinasciiError ''Incorrect padding'') else Inr bin_data)"

fun a2b_loop :: "nat \<Rightarrow> nat \<Rightarrow> nat \<Rightarrow> string \<Rightarrow> string \<Rightarrow> exn + string" where
  "a2b_loop quad_pos leftchar leftbits bin_data [] = a2b_finish leftbits bin_data"
| "a2b_loop quad_pos leftchar leftbits bin_data (this_ch # ascii_data) =
     (if (of_char this_ch :: nat) > 127 \<or> this_ch = CHR 0x0D \<or> this_ch = CHR 0x0A
         \<or> this_ch = CHR '' ''
      then a2b_loop quad_pos leftchar leftbits bin_data ascii_data
      else if this_ch = CHR ''=''
      then (if quad_pos < 2
               \<or> (quad_pos = 2 \<and> find_valid (this_ch # ascii_data) 1 \<noteq> Some CHR ''='')
            then a2b_loop quad_pos leftchar leftbits bin_data ascii_data
            else a2b_finish 0 bin_data)
      else (case a2b this_ch of
              None \<Rightarrow> a2b_loop quad_pos leftchar leftbits bin_data ascii_data
            | Some v \<Rightarrow>
                (let quad_pos' = (quad_pos + 1) mod 4;
                     leftchar' = leftchar * 64 + v;
                     leftbits' = leftbits + 6
                 in if leftbits' \<ge> 8
                    then a2b_loop quad_pos' (leftchar' mod 2 ^ (leftbits' - 8)) (leftbits' - 8)
                           (bin_data @ [char_of (leftchar' div 2 ^ (leftbits' - 8) mod 256)])
                           ascii_data
                    else a2b_loop quad_pos' leftchar' leftbits' bin_data ascii_data)))"

declare a2b_loop.simps(2) [simp del]

definition a2b_base64 :: "string \<Rightarrow> exn + string" where
  "a2b_base64 s = a2b_loop 0 0 0 [] s"

text \<open>\<^verbatim>\<open>base64.b64decode\<close> turns the error of \<^verbatim>\<open>binascii\<close> into a \<^verbatim>\<open>TypeError\<close>.\<close>

definition b64decode :: "string \<Rightarrow> exn + string" where
  "b64decode s =
     (case a2b_base64 s of
        Inl (BinasciiError msg) \<Rightarrow> Inl (TypeError msg)
      | Inl e \<Rightarrow> Inl e
      | Inr r \<Rightarrow> Inr r)"

text \<open>The URL-safe variants translate \<open>+\<close> and \<open>/\<close> to \<open>-\<close> and \<open>_\<close>, and back.\<close>

definition urlsafe_encode_translation :: "char \<Rightarrow> char" where
  "urlsafe_encode_translation c =
     (if c = CHR ''+'' then CHR ''-'' else if c = CHR ''/'' then CHR ''_'' else c)"

definition urlsafe_decode_translation :: "char \<Rightarrow> char" where
  "urlsafe_decode_translation c =
     (if c = CHR ''-'' then CHR ''+'' else if c = CHR ''_'' then CHR ''/'' else c)"

definition urlsafe_b64encode :: "string \<Rightarrow> string" where
  "urlsafe_b64encode s = map urlsafe_encode_translation (b64encode s)"

definition urlsafe_b64decode :: "string \<Rightarrow> exn + string" where
  "urlsafe_b64decode s = b64decode (map urlsafe_decode_translation s)"

subsection \<open>\<^verbatim>\<open>ByteArray\<close> and the handler tables\<close>

text \<open>
  Modelled from the spec: \<^verbatim>\<open>_bytes_join\<close> of \<^verbatim>\<open>spyne.util\<close> is not among the sources;
  the spec describes it as the raw concatenation of the chunks. The decoders receive the
  wire string; iterating over a \<^verbatim>\<open>str\<close> yields its characters (\<open>iter_str\<close>), which
  \<^verbatim>\<open>_bytes_join\<close> joins again.
\<close>

definition bytes_join :: "string list \<Rightarrow> string" where
  "bytes_join val = concat val"

definition iter_str :: "string \<Rightarrow> string list" where
  "iter_str s = map (\<lambda>c. [c]) s"

definition ByteArray_to_base64 :: "string list \<Rightarrow> string" where
  "ByteArray_to_base64 val = b64encode (bytes_join val)"

definition ByteArray_from_base64 :: "string \<Rightarrow> exn + string list" where
  "ByteArray_from_base64 val =
     (case b64decode (bytes_join (iter_str val)) of
        Inr r \<Rightarrow> Inr [r]
      | Inl (TypeError msg) \<Rightarrow> Inl (ValidationError val default_validation_msg)
      | Inl e \<Rightarrow> Inl e)"

definition ByteArray_to_urlsafe_base64 :: "string list \<Rightarrow> string" where
  "ByteArray_to_urlsafe_base64 val = urlsafe_b64encode (bytes_join val)"

definition ByteArray_from_urlsafe_base64 :: "string \<Rightarrow> exn + string list" where
  "ByteArray_from_urlsafe_base64 val =
     (case urlsafe_b64decode (bytes_join (iter_str val)) of
        Inr r \<Rightarrow> Inr [r]
      | Inl e \<Rightarrow> Inl e)"

definition ByteArray_to_hex :: "string list \<Rightarrow> string" where
  "ByteArray_to_hex val = hexlify (bytes_join val)"

definition ByteArray_from_hex :: "string \<Rightarrow> exn + string list" where
  "ByteArray_from_hex val =
     (case unhexlify (bytes_join (iter_str val)) of
        Inr r \<Rightarrow> Inr [r]
      | Inl e \<Rightarrow> Inl e)"

text \<open>
  The encoding selectors and the two dictionaries; the key \<open>None\<close> is Python's \<^verbatim>\<open>None\<close>,
  the raw variant. A key that is missing raises \<^verbatim>\<open>KeyError\<close>.
\<close>

datatype binary_encoding =
    BINARY_ENCODING_HEX
  | BINARY_ENCODING_BASE64
  | BINARY_ENCODING_USE_DEFAULT
  | BINARY_ENCODING_URLSAFE_BASE64

definition binary_encoding_handlers :: "binary_encoding option \<rightharpoonup> (string list \<Rightarrow> string)" where
  "binary_encoding_handlers =
     [None \<mapsto> concat,
      Some BINARY_ENCODING_HEX \<mapsto> ByteArray_to_hex,
      Some BINARY_ENCODING_BASE64 \<mapsto> ByteArray_to_base64,
      Some BINARY_ENCODING_URLSAFE_BASE64 \<mapsto> ByteArray_to_urlsafe_base64]"

definition binary_decoding_handlers ::
  "binary_encoding option \<rightharpoonup> (string \<Rightarrow> exn + string list)" where
  "binary_decoding_handlers =
     [None \<mapsto> (\<lambda>x. Inr [x]),
      Some BINARY_ENCODING_HEX \<mapsto> ByteArray_from_hex,
      Some BINARY_ENCODING_BASE64 \<mapsto> ByteArray_from_base64,
      Some BINARY_ENCODING_URLSAFE_BASE64 \<mapsto> ByteArray_from_urlsafe_base64]"

text \<open>
  \<^verbatim>\<open>byte_array_to_string\<close> and \<^verbatim>\<open>byte_array_from_string\<close> of
  \<^verbatim>\<open>spyne/protocol/_model.py\<close>; \<open>encoding\<close> is \<^verbatim>\<open>cls.Attributes.encoding\<close>.
\<close>

definition byte_array_from_string ::
  "binary_encoding option \<Rightarrow> string \<Rightarrow> binary_encoding option \<Rightarrow> exn + string list" where
  "byte_array_from_string encoding val suggested_encoding =
     (let encoding = (if encoding = Some BINARY_ENCODING_USE_DEFAULT
                      then suggested_encoding else encoding)
      in case binary_decoding_handlers encoding of
           None \<Rightarrow> Inl KeyError
         | Some h \<Rightarrow> h val)"

definition byte_array_to_string ::
  "binary_encoding option \<Rightarrow> string list \<Rightarrow> binary_encoding option \<Rightarrow> exn + string" where
  "byte_array_to_string encoding val suggested_encoding =
     (let encoding = (if encoding = Some BINARY_ENCODING_USE_DEFAULT
                      then suggested_encoding else encoding)
      in case binary_encoding_handlers encoding of
           None \<Rightarrow> Inl KeyError
         | Some h \<Rightarrow> Inr (h val))"

subsection \<open>\<^verbatim>\<open>File.to_base64\<close> and \<^verbatim>\<open>File.from_base64\<close>\<close>

text \<open>
  The loop of \<^verbatim>\<open>File.to_base64\<close> over the content still to be read: \<^verbatim>\<open>f.read(0x4000)\<close>
  takes the next \<open>16384\<close> bytes (fewer at the end of the file), and every chunk read is
  encoded on its own.
\<close>

function read_chunks :: "string \<Rightarrow> string list" where
  "read_chunks rest =
     (let data = take 0x4000 rest
      in if length data > 0 then b64encode data # read_chunks (drop 0x4000 rest) else [])"
  by pat_completeness auto
termination
  by (relation "measure length") auto

declare read_chunks.simps [simp del]

text \<open>
  \<^verbatim>\<open>File.to_base64\<close> is a generator; the model returns the chunks it yields, or the
  exception its first step raises. For \<^verbatim>\<open>None\<close> the generator ends at once.
\<close>

definition File_to_base64 :: "os_env \<Rightarrow> file_value option \<Rightarrow> exn + string list" where
  "File_to_base64 env val =
     (case val of
        None \<Rightarrow> Inr []
      | Some v \<Rightarrow>
          (case path v of
             None \<Rightarrow> Inl AssertionError
           | Some p \<Rightarrow>
               if p = [] then Inl AssertionError
               else (case files env p of
                       None \<Rightarrow> Inl (IOError p)
                     | Some content \<Rightarrow> Inr (read_chunks content))))"

definition File_from_base64 :: "string option \<Rightarrow> exn + file_value option" where
  "File_from_base64 val =
     (case val of
        None \<Rightarrow> Inr None
      | Some s \<Rightarrow>
          (case b64decode s of
             Inl e \<Rightarrow> Inl e
           | Inr r \<Rightarrow>
               Inr (Some \<lparr>name = None, path = None, type = ''application/octet-stream'',
                          data = Some [r], handle = None\<rparr>)))"

section \<open>Request pipeline (\<^verbatim>\<open>spyne/server/_base.py\<close>)\<close>

text \<open>
  The context of one request. Documents and objects are opaque values of type \<open>'v\<close>;
  \<open>None\<close> is Python's \<^verbatim>\<open>None\<close>. The error fields hold the exception that was caught;
  \<open>out_string\<close> is a sequence of chunks.
\<close>

record 'v method_context =
  in_string :: "string list option"
  in_document :: "'v option"
  in_header_doc :: "'v option"
  in_body_doc :: "'v option"
  method_request_string :: "string option"
  in_header :: "'v option"
  in_object :: "'v option"
  in_error :: "exn option"
  out_object :: "'v option"
  out_error :: "exn option"
  out_document :: "'v option"
  out_string :: "string list option"
  service_class :: "'v option"

text \<open>
  The collaborators are not part of the sources; they are parameters of the model. Each
  call takes the context, may change it, and may raise: it returns the exception (if any)
  with the context as the call left it. A collaborator that raises may have changed the
  context before.

  \<^item> The input protocol (\<^verbatim>\<open>self.app.in_protocol\<close>).
  \<^item> The output protocol (\<^verbatim>\<open>ctx.out_protocol\<close>): \<open>serialize\<close> returns \<open>Some g\<close> when
    its result is a generator (in state \<open>g\<close>) and \<open>None\<close> for any other result;
    \<open>gen_send\<close> and \<open>gen_throw\<close> are \<^verbatim>\<open>ret.send(y)\<close> and \<^verbatim>\<open>ret.throw(exc)\<close>, which
    return the generator's next state when it yields again and the exception when it
    raises (\<open>StopIteration\<close> when it finishes).
  \<^item> The event manager of the service class (\<open>fire_event\<close>).
\<close>

record 'v in_protocol =
  create_in_document :: "'v method_context \<Rightarrow> string option \<Rightarrow> exn option \<times> 'v method_context"
  decompose_incoming_envelope :: "'v method_context \<Rightarrow> exn option \<times> 'v method_context"
  generate_method_contexts :: "'v method_context \<Rightarrow> (exn + 'v method_context list) \<times> 'v method_context"

record ('v, 'g) out_protocol =
  serialize :: "'v method_context \<Rightarrow> (exn + 'g option) \<times> 'v method_context"
  gen_send :: "'g \<Rightarrow> 'v \<Rightarrow> 'v method_context \<Rightarrow> (exn + 'g) \<times> 'v method_context"
  gen_throw :: "'g \<Rightarrow> exn \<Rightarrow> 'v method_context \<Rightarrow> (exn + 'g) \<times> 'v method_context"
  create_out_string :: "'v method_context \<Rightarrow> exn option \<times> 'v method_context"
  fire_event :: "string \<Rightarrow> 'v method_context \<Rightarrow> exn option \<times> 'v method_context"

subsection \<open>\<^verbatim>\<open>generate_contexts\<close>\<close>

text \<open>The body of the \<^verbatim>\<open>try\<close>: the three calls, in order, stopping at the first that raises.\<close>

definition generate_contexts_try ::
  "'v in_protocol \<Rightarrow> 'v method_context \<Rightarrow> string option \<Rightarrow> (exn + 'v method_context list) \<times> 'v method_context" where
  "generate_contexts_try prot ctx in_string_charset =
     (case create_in_document prot ctx in_string_charset of
        (Some e, c1) \<Rightarrow> (Inl e, c1)
      | (None, c1) \<Rightarrow>
          (case decompose_incoming_envelope prot c1 of
             (Some e, c2) \<Rightarrow> (Inl e, c2)
           | (None, c2) \<Rightarrow> generate_method_contexts prot c2))"

text \<open>
  \<^verbatim>\<open>generate_contexts\<close>: \<^verbatim>\<open>except Fault as e\<close> handles the exceptions that are faults
  and no others. The result is the returned tuple of contexts, or the exception that
  propagates, with the context as it is left.
\<close>

definition generate_contexts ::
  "'v in_protocol \<Rightarrow> 'v method_context \<Rightarrow> string option \<Rightarrow> (exn + 'v method_context list) \<times> 'v method_context" where
  "generate_contexts prot ctx in_string_charset =
     (case generate_contexts_try prot ctx in_string_charset of
        (Inr retval, c) \<Rightarrow> (Inr retval, c)
      | (Inl e, c) \<Rightarrow>
          if is_fault e
          then (let c' = c\<lparr>in_object := None, in_error := Some e, out_error := Some e\<rparr>
                in (Inr [c'], c'))
          else (Inl e, c))"

subsection \<open>\<^verbatim>\<open>get_out_string\<close>\<close>

text \<open>
  \<^verbatim>\<open>get_out_string\<close> is a coroutine: at \<^verbatim>\<open>y = (yield)\<close> it waits for its driver, which
  either sends a value or throws an exception into it. The driver's actions are a list;
  when the list is used up at a \<^verbatim>\<open>yield\<close> the coroutine stays suspended.
\<close>

datatype 'v action = Send 'v | Throw exn

datatype status = Returned | Raised exn | Suspended

text \<open>
  The loop \<^verbatim>\<open>while True: y = (yield); ret.send(y)\<close> under \<^verbatim>\<open>except Break\<close>. The result
  is \<open>None\<close> when control leaves the \<^verbatim>\<open>try\<close> statement normally. An exception of
  \<^verbatim>\<open>ret.send\<close> propagates (also \<open>Break\<close>: the handler then throws into a finished
  generator, which raises it again; and \<open>StopIteration\<close>, which ends the coroutine
  without running the rest of its body). A \<open>Break\<close> thrown by the driver is passed to
  the generator, whose \<open>StopIteration\<close> is swallowed.
\<close>

fun drive ::
  "('v, 'g) out_protocol \<Rightarrow> 'g \<Rightarrow> 'v method_context \<Rightarrow> 'v action list \<Rightarrow> status option \<times> 'v method_context" where
  "drive prot g c [] = (Some Suspended, c)"
| "drive prot g c (Send y # acts) =
     (case gen_send prot g y c of
        (Inr g', c') \<Rightarrow> drive prot g' c' acts
      | (Inl e, c') \<Rightarrow> (Some (Raised e), c'))"
| "drive prot g c (Throw e # acts) =
     (if e = Break
      then (case gen_throw prot g Break c of
              (Inl e', c') \<Rightarrow> if e' = StopIteration then (None, c') else (Some (Raised e'), c')
            | (Inr g', c') \<Rightarrow> (None, c'))
      else (Some (Raised e), c))"

text \<open>
  Under Python 2 a \<open>StopIteration\<close> that escapes from the body of a generator is what
  its driver sees when the generator finishes: to the driver, a coroutine that ended so
  has completed, as one whose body returned has.
\<close>

fun driver_sees_completion :: "status \<Rightarrow> bool" where
  "driver_sees_completion Returned = True"
| "driver_sees_completion (Raised e) = (e = StopIteration)"
| "driver_sees_completion Suspended = False"

definition serialize_document ::
  "('v, 'g) out_protocol \<Rightarrow> 'v method_context \<Rightarrow> 'v action list \<Rightarrow> status option \<times> 'v method_context" where
  "serialize_document prot ctx acts =
     (if out_document ctx = None
      then (case serialize prot ctx of
              (Inl e, c) \<Rightarrow> (Some (Raised e), c)
            | (Inr None, c) \<Rightarrow> (None, c)
            | (Inr (Some ret), c) \<Rightarrow> drive prot ret c acts)
      else (None, ctx))"

text \<open>
  The two event phases. Each returns the exception of the handler (if any), the context,
  and the calls of \<^verbatim>\<open>fire_event\<close> it made, as pairs of the event name and the context
  passed.
\<close>

definition document_event_name :: "'v method_context \<Rightarrow> string" where
  "document_event_name ctx =
     (if out_error ctx = None then ''method_return_document'' else ''method_exception_document'')"

definition string_event_name :: "'v method_context \<Rightarrow> string" where
  "string_event_name ctx =
     (if out_error ctx = None then ''method_return_string'' else ''method_exception_string'')"

definition fire_document_event ::
  "('v, 'g) out_protocol \<Rightarrow> 'v method_context
     \<Rightarrow> exn option \<times> 'v method_context \<times> (string \<times> 'v method_context) list" where
  "fire_document_event prot ctx =
     (if service_class ctx \<noteq> None
      then (case fire_event prot (document_event_name ctx) ctx of
              (r, c) \<Rightarrow> (r, c, [(document_event_name ctx, ctx)]))
      else (None, ctx, []))"

definition fire_string_event ::
  "('v, 'g) out_protocol \<Rightarrow> 'v method_context
     \<Rightarrow> exn option \<times> 'v method_context \<times> (string \<times> 'v method_context) list" where
  "fire_string_event prot ctx =
     (if service_class ctx \<noteq> None
      then (case fire_event prot (string_event_name ctx) ctx of
              (r, c) \<Rightarrow> (r, c, [(string_event_name ctx, ctx)]))
      else (None, ctx, []))"

text \<open>
  The body of \<^verbatim>\<open>get_out_string\<close> between the early return and the final default, and
  the whole function. The result is how the coroutine ended, the context, and the events
  fired.
\<close>

definition get_out_string_body ::
  "('v, 'g) out_protocol \<Rightarrow> 'v method_context \<Rightarrow> 'v action list
     \<Rightarrow> status \<times> 'v method_context \<times> (string \<times> 'v method_context) list" where
  "get_out_string_body prot ctx acts =
     (case serialize_document prot ctx acts of
        (Some st, c1) \<Rightarrow> (st, c1, [])
      | (None, c1) \<Rightarrow>
          (case fire_document_event prot c1 of
             (Some e, c2, log1) \<Rightarrow> (Raised e, c2, log1)
           | (None, c2, log1) \<Rightarrow>
               (case create_out_string prot c2 of
                  (Some e, c3) \<Rightarrow> (Raised e, c3, log1)
                | (None, c3) \<Rightarrow>
                    (case fire_string_event prot c3 of
                       (Some e, c4, log2) \<Rightarrow> (Raised e, c4, log1 @ log2)
                     | (None, c4, log2) \<Rightarrow> (Returned, c4, log1 @ log2)))))"

definition get_out_string ::
  "('v, 'g) out_protocol \<Rightarrow> 'v method_context \<Rightarrow> 'v action list
     \<Rightarrow> status \<times> 'v method_context \<times> (string \<times> 'v method_context) list" where
  "get_out_string prot ctx acts =
     (if out_string ctx \<noteq> None then (Returned, ctx, [])
      else (case get_out_string_body prot ctx acts of
              (Returned, c, log) \<Rightarrow>
                (Returned, (if out_string c = None then c\<lparr>out_string := Some ['''']\<rparr> else c), log)
            | (st, c, log) \<Rightarrow> (st, c, log)))"

section \<open>Properties of the integer codec\<close>

text \<open>
  Claim C8. Whenever a maximum length is declared and the input string is strictly longer,
  \<^verbatim>\<open>integer_from_string\<close> fails with a validation error whose offending value is the input
  string itself, whatever the integer parser would have answered (the parser is not
  consulted: the result is the same for every parser). In particular with
  \<^verbatim>\<open>max_str_len = 3\<close> the input \<^verbatim>\<open>"12345"\<close> is rejected with a validation error that
  references \<^verbatim>\<open>"12345"\<close>.
\<close>

theorem integer_from_string_oversized:
  assumes "max_str_len attrs = Some n" and "int (length s) > n"
  shows "integer_from_string py_int attrs s
           = Inl (ValidationError s (''Integer %r longer than '' @ fmt_i n @ '' characters''))
         \<and> integer_from_string py_int attrs s = integer_from_string py_int' attrs s
         \<and> (case integer_from_string py_int attrs s of
                Inl e \<Rightarrow> is_validation_error e \<and> offending_value e = Some s
              | Inr v \<Rightarrow> False)"
  using assms by (simp add: integer_from_string_def)

theorem integer_from_string_oversized_witness:
  "max_str_len \<lparr>max_str_len = Some 3, format = None\<rparr> = Some 3
   \<and> int (length ''12345'') > 3
   \<and> (case integer_from_string (\<lambda>s. Some 12345) \<lparr>max_str_len = Some 3, format = None\<rparr> ''12345'' of
          Inl e \<Rightarrow> is_validation_error e \<and> offending_value e = Some ''12345''
        | Inr v \<Rightarrow> False)"
  using integer_from_string_oversized
    [of "\<lparr>max_str_len = Some 3, format = None\<rparr>" 3 "''12345''" "\<lambda>s. Some 12345"]
  by simp

section \<open>Properties of file values\<close>

lemma write_all_files_other:
  "q \<noteq> p \<Longrightarrow> files (write_all env p ds) q = files env q"
  by (induction ds arbitrary: env) (simp_all add: file_write_def)

lemma write_all_files_same:
  "files env p = Some c \<Longrightarrow> files (write_all env p ds) p = Some (c @ concat ds)"
  by (induction ds arbitrary: env c) (simp_all add: file_write_def)

lemma mkstemp_inner_fresh:
  "mkstemp_inner fs dir ns = Inr f \<Longrightarrow>
     fs f = None \<and> (\<exists>n\<in>set ns. f = dir @ ''/'' @ ''tmp'' @ n)"
  by (induction ns) (auto simp: Let_def split: if_splits)

lemma isabs_append: "isabs d \<Longrightarrow> isabs (d @ r)"
  by (cases d) simp_all

lemma basename_tmp:
  assumes "CHR ''/'' \<notin> set n"
  shows "basename (d @ ''/'' @ ''tmp'' @ n) = ''tmp'' @ n"
proof -
  have "takeWhile (\<lambda>c. c \<noteq> CHR ''/'') (rev n @ ''pmt'' @ ''/'' @ rev d) = rev n @ ''pmt''"
    using assms by (simp add: takeWhile_append)
  then show ?thesis by (simp add: basename_def)
qed

text \<open>
  Claim C7. Let \<^verbatim>\<open>rollover()\<close> complete on a value whose \<open>data\<close> holds the chunks
  \<open>chunks\<close> (where a temporary file is allocated, the temporary directory being
  absolute and the candidate names of \<^verbatim>\<open>mkstemp\<close> free of slashes, as the library has
  them). Then \<open>data\<close> is unset, \<open>path\<close>
  is an absolute path whose file holds exactly the chunks in order, and no other file
  changed. When \<open>path\<close> was unset (as for a value constructed with only \<open>data\<close>) the
  path is that of a file that did not exist before; when it was set, it is that very
  path. When \<open>name\<close> was unset it now is the basename of the path, which is non-empty
  for a freshly allocated file; a name that was set is kept.
\<close>

theorem rollover_normalizes:
  assumes "rollover env v = (None, v', env')"
    and "data v = Some chunks"
    and "path v = None \<Longrightarrow> isabs (tmpdir env)"
    and "path v = None \<Longrightarrow> \<forall>n\<in>set (tmpnames env). CHR ''/'' \<notin> set n"
  shows "data v' = None
     \<and> (\<exists>p. path v' = Some p \<and> isabs p
            \<and> files env' p = Some (concat chunks)
            \<and> (\<forall>q. q \<noteq> p \<longrightarrow> files env' q = files env q)
            \<and> (case path v of
                  None \<Rightarrow> files env p = None
                | Some p0 \<Rightarrow> p = p0)
            \<and> (case name v of
                  None \<Rightarrow> name v' = Some (basename p) \<and> (path v = None \<longrightarrow> basename p \<noteq> [])
                | Some n \<Rightarrow> name v' = Some n))"
proof (cases "path v")
  case None
  with assms(1,2) obtain p
    where mk: "mkstemp_inner (files env) (tmpdir env) (tmpnames env) = Inr p"
    by (auto simp: rollover_def mkstemp_def split: sum.splits)
  from mkstemp_inner_fresh[OF mk] obtain n where fresh: "files env p = None"
    and n: "n \<in> set (tmpnames env)" and p: "p = tmpdir env @ ''/'' @ ''tmp'' @ n"
    by blast
  have abs: "isabs p" using assms(3)[OF None] p by (simp add: isabs_append)
  have bn: "basename p = ''tmp'' @ n" using assms(4)[OF None] n p basename_tmp by blast
  from assms(1,2) None mk
  have v': "v' = (if name v = None
                  then v\<lparr>path := Some p, name := Some (basename p), data := None\<rparr>
                  else v\<lparr>path := Some p, data := None\<rparr>)"
    and env': "env' = write_all (env\<lparr>files := (files env)(p \<mapsto> [])\<rparr>) p chunks"
    by (auto simp: rollover_def mkstemp_def Let_def split: if_splits)
  have c: "files env' p = Some (concat chunks)"
    using write_all_files_same[of "env\<lparr>files := (files env)(p \<mapsto> [])\<rparr>" p "[]" chunks] env'
    by simp
  have o: "\<forall>q. q \<noteq> p \<longrightarrow> files env' q = files env q"
    using env' by (simp add: write_all_files_other)
  show ?thesis using None v' c o abs fresh bn by (auto split: option.splits)
next
  case (Some p)
  with assms(1,2) have abs: "isabs p" and nd: "\<not> denied env p"
    by (auto simp: rollover_def open_wb_def split: if_splits sum.splits)
  from assms(1,2) Some abs nd
  have v': "v' = (if name v = None then v\<lparr>name := Some (basename p), data := None\<rparr>
                  else v\<lparr>data := None\<rparr>)"
    and env': "env' = write_all (env\<lparr>files := (files env)(p \<mapsto> [])\<rparr>) p chunks"
    by (auto simp: rollover_def open_wb_def Let_def split: if_splits)
  have c: "files env' p = Some (concat chunks)"
    using write_all_files_same[of "env\<lparr>files := (files env)(p \<mapsto> [])\<rparr>" p "[]" chunks] env'
    by simp
  have o: "\<forall>q. q \<noteq> p \<longrightarrow> files env' q = files env q"
    using env' by (simp add: write_all_files_other)
  show ?thesis using Some v' c o abs by (auto split: option.splits)
qed

theorem rollover_normalizes_witness:
  "rollover
     \<lparr>files = Map.empty, denied = (\<lambda>p. False), tmpdir = ''/tmp'', tmpnames = [''abc123'']\<rparr>
     \<lparr>name = None, path = None, type = ''application/octet-stream'',
      data = Some [''ab'', ''cd''], handle = None\<rparr>
   = (None,
      \<lparr>name = Some ''tmpabc123'', path = Some ''/tmp/tmpabc123'',
       type = ''application/octet-stream'', data = None, handle = None\<rparr>,
      \<lparr>files = [''/tmp/tmpabc123'' \<mapsto> ''abcd''], denied = (\<lambda>p. False), tmpdir = ''/tmp'',
       tmpnames = [''abc123'']\<rparr>)
   \<and> isabs ''/tmp/tmpabc123'' \<and> basename ''/tmp/tmpabc123'' = ''tmpabc123''"
proof -
  let ?env = "\<lparr>files = Map.empty, denied = (\<lambda>p. False), tmpdir = ''/tmp'',
               tmpnames = [''abc123'']\<rparr>"
  let ?v = "\<lparr>name = None, path = None, type = ''application/octet-stream'',
             data = Some [''ab'', ''cd''], handle = None\<rparr>"
  let ?v' = "\<lparr>name = Some ''tmpabc123'', path = Some ''/tmp/tmpabc123'',
              type = ''application/octet-stream'', data = None, handle = None\<rparr>"
  let ?env' = "\<lparr>files = [''/tmp/tmpabc123'' \<mapsto> ''abcd''], denied = (\<lambda>p. False),
                tmpdir = ''/tmp'', tmpnames = [''abc123'']\<rparr>"
  have r: "rollover ?env ?v = (None, ?v', ?env')"
    by (simp add: rollover_def mkstemp_def basename_def file_write_def)
  have d: "data ?v = Some [''ab'', ''cd'']" by simp
  have a: "path ?v = None \<Longrightarrow> isabs (tmpdir ?env)" by simp
  have s: "path ?v = None \<Longrightarrow> \<forall>n\<in>set (tmpnames ?env). CHR ''/'' \<notin> set n" by simp
  from rollover_normalizes[OF r d a s] r show ?thesis
    by (simp add: basename_def)
qed

text \<open>
  Claim C10. \<^verbatim>\<open>rollover()\<close> on a value whose \<open>data\<close> is \<^verbatim>\<open>None\<close> raises (the
  \<^verbatim>\<open>TypeError\<close> of \<^verbatim>\<open>iter(None)\<close>) and leaves every field of the value, and the file
  system, as they were. A \<^verbatim>\<open>rollover()\<close> that completes leaves \<open>data\<close> unset, so a
  second call on the same value fails in that way, whatever the file system then is:
  the operation is not idempotent.
\<close>

theorem rollover_without_data:
  "(data v = None \<longrightarrow>
      rollover env v = (Some (TypeError ''NoneType object is not iterable''), v, env))
   \<and> (rollover env v = (None, v', env') \<longrightarrow>
        data v' = None
        \<and> rollover env2 v' = (Some (TypeError ''NoneType object is not iterable''), v', env2))"
  by (auto simp: rollover_def Let_def split: option.splits sum.splits if_splits)

theorem rollover_without_data_witness:
  "rollover
     \<lparr>files = Map.empty, denied = (\<lambda>p. False), tmpdir = ''/tmp'', tmpnames = [''abc123'']\<rparr>
     \<lparr>name = None, path = None, type = ''application/octet-stream'',
      data = Some [''ab'', ''cd''], handle = None\<rparr>
   = (None,
      \<lparr>name = Some ''tmpabc123'', path = Some ''/tmp/tmpabc123'',
       type = ''application/octet-stream'', data = None, handle = None\<rparr>,
      \<lparr>files = [''/tmp/tmpabc123'' \<mapsto> ''abcd''], denied = (\<lambda>p. False), tmpdir = ''/tmp'',
       tmpnames = [''abc123'']\<rparr>)
   \<and> rollover
     \<lparr>files = [''/tmp/tmpabc123'' \<mapsto> ''abcd''], denied = (\<lambda>p. False), tmpdir = ''/tmp'',
      tmpnames = [''abc123'']\<rparr>
     \<lparr>name = Some ''tmpabc123'', path = Some ''/tmp/tmpabc123'',
      type = ''application/octet-stream'', data = None, handle = None\<rparr>
   = (Some (TypeError ''NoneType object is not iterable''),
      \<lparr>name = Some ''tmpabc123'', path = Some ''/tmp/tmpabc123'',
       type = ''application/octet-stream'', data = None, handle = None\<rparr>,
      \<lparr>files = [''/tmp/tmpabc123'' \<mapsto> ''abcd''], denied = (\<lambda>p. False), tmpdir = ''/tmp'',
       tmpnames = [''abc123'']\<rparr>)"
proof -
  let ?env = "\<lparr>files = Map.empty, denied = (\<lambda>p. False), tmpdir = ''/tmp'',
               tmpnames = [''abc123'']\<rparr>"
  let ?v = "\<lparr>name = None, path = None, type = ''application/octet-stream'',
             data = Some [''ab'', ''cd''], handle = None\<rparr>"
  let ?v' = "\<lparr>name = Some ''tmpabc123'', path = Some ''/tmp/tmpabc123'',
              type = ''application/octet-stream'', data = None, handle = None\<rparr>"
  let ?env' = "\<lparr>files = [''/tmp/tmpabc123'' \<mapsto> ''abcd''], denied = (\<lambda>p. False),
                tmpdir = ''/tmp'', tmpnames = [''abc123'']\<rparr>"
  have r: "rollover ?env ?v = (None, ?v', ?env')"
    by (simp add: rollover_def mkstemp_def basename_def file_write_def)
  from rollover_without_data[of ?v ?env ?v' ?env' ?env'] r
  show ?thesis by simp
qed

section \<open>Properties of the duration codec\<close>

lemma digit_char_neq:
  "d < 10 \<Longrightarrow> digit_char d \<noteq> CHR ''T''"
  by (simp_all add: digit_char_def char_of_eq_iff take_bit_eq_mod)

lemma digits_of_chars: "c \<in> set (digits_of n) \<Longrightarrow> \<exists>d<10. c = digit_char d"
proof (induction n rule: digits_of.induct)
  case (1 n)
  show ?case
  proof (cases "n < 10")
    case True
    with "1.prems" show ?thesis by (auto simp: digits_of.simps[of n])
  next
    case False
    with "1.prems" have "c \<in> set (digits_of (n div 10)) \<or> c = digit_char (n mod 10)"
      by (auto simp: digits_of.simps[of n])
    then show ?thesis
    proof
      assume "c \<in> set (digits_of (n div 10))"
      with False "1.IH" show ?thesis by simp
    next
      assume "c = digit_char (n mod 10)"
      then show ?thesis by (intro exI[of _ "n mod 10"]) simp
    qed
  qed
qed

lemma digits_of_no_T: "CHR ''T'' \<notin> set (digits_of n)"
  using digits_of_chars digit_char_neq by fastforce

lemma digits_of_nonempty: "digits_of n \<noteq> []"
  by (subst digits_of.simps) simp

lemma fmt_i_no_T: "CHR ''T'' \<notin> set (fmt_i n)"
  by (simp add: fmt_i_def digits_of_no_T)

lemma neg_divmod:
  fixes x k :: int
  assumes "0 \<le> x" "x < k"
  shows "(- x) div k = (if x = 0 then 0 else - 1)" "(- x) mod k = (if x = 0 then 0 else k - x)"
proof -
  show "(- x) div k = (if x = 0 then 0 else - 1)"
  proof (cases "x = 0")
    case True then show ?thesis by simp
  next
    case False
    have "(- x) div k = - 1"
      by (rule int_div_pos_eq[where r = "k - x"]) (use assms False in auto)
    with False show ?thesis by simp
  qed
  show "(- x) mod k = (if x = 0 then 0 else k - x)"
  proof (cases "x = 0")
    case True then show ?thesis by simp
  next
    case False
    have "(- x) mod k = k - x"
      by (rule int_mod_pos_eq[where q = "- 1"]) (use assms False in auto)
    with False show ?thesis by simp
  qed
qed

lemma timedelta_new_eq:
  assumes "s + us div 1000000 = s1" "s1 div 86400 = q" "s1 mod 86400 = s2"
    and "\<bar>d + q\<bar> \<le> 999999999"
  shows "timedelta_new d s us = Inr \<lparr>days = d + q, seconds = s2, microseconds = us mod 1000000\<rparr>"
  using assms by (simp add: timedelta_new_def Let_def)

lemma timedelta_neg_ok:
  assumes "timedelta_ok v" and "days v < 0"
  shows "\<exists>w. timedelta_neg v = Inr w \<and> timedelta_ok w \<and> 0 \<le> days w
           \<and> total_microseconds w = - total_microseconds v"
proof -
  from assms have b: "- 999999999 \<le> days v" "days v \<le> -1" "0 \<le> seconds v" "seconds v < 86400"
     "0 \<le> microseconds v" "microseconds v < 1000000"
    by (simp_all add: timedelta_ok_def)
  note us = neg_divmod[OF b(5,6)]
  define c where "c = (if microseconds v = 0 then 0 else 1 :: int)"
  define x where "x = seconds v + c"
  have s1: "- seconds v + (- microseconds v) div 1000000 = - x"
    using us by (simp add: x_def c_def)
  have x0: "0 \<le> x" "x \<le> 86400" using b by (auto simp: x_def c_def)
  show ?thesis
  proof (cases "x = 86400")
    case True
    have q: "(- x) div 86400 = - 1" "(- x) mod 86400 = 0" using True by simp_all
    have r: "\<bar>- days v + - 1\<bar> \<le> 999999999" using b by simp
    have c1: "c = 1" "seconds v = 86399" using True b by (auto simp: x_def c_def split: if_splits)
    then have m: "microseconds v \<noteq> 0" by (auto simp: c_def split: if_splits)
    show ?thesis
      unfolding timedelta_neg_def timedelta_new_eq[OF s1 q r]
      using b m c1 us by (simp add: timedelta_ok_def total_microseconds_def)
  next
    case False
    then have xl: "x < 86400" using x0 by simp
    note xs = neg_divmod[OF x0(1) xl]
    show ?thesis
    proof (cases "x = 0")
      case True
      have q: "(- x) div 86400 = 0" "(- x) mod 86400 = 0" using True by simp_all
      have r: "\<bar>- days v + 0\<bar> \<le> 999999999" using b by simp
      have z: "seconds v = 0" "microseconds v = 0" using True b by (auto simp: x_def c_def split: if_splits)
      show ?thesis
        unfolding timedelta_neg_def timedelta_new_eq[OF s1 q r]
        using b z by (simp add: timedelta_ok_def total_microseconds_def)
    next
      case F: False
      have q: "(- x) div 86400 = - 1" "(- x) mod 86400 = 86400 - x" using xs F by simp_all
      have r: "\<bar>- days v + - 1\<bar> \<le> 999999999" using b by simp
      show ?thesis
        unfolding timedelta_neg_def timedelta_new_eq[OF s1 q r]
        using b us x0 xl F by (auto simp: timedelta_ok_def total_microseconds_def x_def c_def split: if_splits)
    qed
  qed
qed

lemma total_nonneg:
  assumes "timedelta_ok w" "0 \<le> days w"
  shows "0 \<le> total_microseconds w"
    and "total_microseconds w mod 86400000000 = seconds w * 1000000 + microseconds w"
    and "total_microseconds w div 86400000000 = days w"
proof -
  from assms have b: "0 \<le> days w" "0 \<le> seconds w" "seconds w < 86400"
     "0 \<le> microseconds w" "microseconds w < 1000000"
    by (simp_all add: timedelta_ok_def)
  have eq: "total_microseconds w = 86400000000 * days w + (seconds w * 1000000 + microseconds w)"
    by (simp add: total_microseconds_def algebra_simps)
  have r: "0 \<le> seconds w * 1000000 + microseconds w" "seconds w * 1000000 + microseconds w < 86400000000"
    using b by auto
  show "0 \<le> total_microseconds w" using eq r b by simp
  show "total_microseconds w mod 86400000000 = seconds w * 1000000 + microseconds w"
    by (rule int_mod_pos_eq[OF eq r])
  show "total_microseconds w div 86400000000 = days w"
    by (rule int_div_pos_eq[OF eq r])
qed

lemma total_neg:
  assumes "timedelta_ok w" "days w < 0"
  shows "total_microseconds w < 0"
  using assms by (auto simp: timedelta_ok_def total_microseconds_def)


lemma duration_to_string_nonneg:
  assumes "0 \<le> days w"
  shows "duration_to_string w = Inr (duration_text ''P'' w)"
  using assms
  by (simp add: duration_to_string_def Let_def time_pieces_def day_pieces_def whole_days_def
        duration_text_def)

lemma duration_to_string_neg:
  assumes "days v < 0" "timedelta_neg v = Inr w"
  shows "duration_to_string v = Inr (duration_text ''-P'' w)"
  using assms
  by (simp add: duration_to_string_def Let_def time_pieces_def day_pieces_def whole_days_def
        duration_text_def)

lemma time_pieces_shape:
  assumes "timedelta_ok w"
  shows "time_pieces w = [] \<longleftrightarrow> seconds w = 0 \<and> microseconds w = 0"
    and "time_pieces w \<noteq> [] \<Longrightarrow>
           concat (time_pieces w) \<noteq> []
           \<and> last (concat (time_pieces w)) \<in> {CHR ''H'', CHR ''M'', CHR ''S''}
           \<and> CHR ''T'' \<notin> set (concat (time_pieces w))"
proof -
  from assms have b: "0 \<le> seconds w" "0 \<le> microseconds w"
    by (simp_all add: timedelta_ok_def)
  define h m s where "h = seconds w div 60 div 60" and "m = seconds w div 60 mod 60"
    and "s = seconds w mod 60"
  have nn: "0 \<le> h" "0 \<le> m" "0 \<le> s"
    using b by (simp_all add: h_def m_def s_def pos_imp_zdiv_nonneg_iff)
  have dec: "seconds w = (h * 60 + m) * 60 + s" by (simp add: h_def m_def s_def)
  have tp: "time_pieces w =
     (if h > 0 then [fmt_i h @ ''H''] else [])
     @ (if m > 0 then [fmt_i m @ ''M''] else [])
     @ (if s > 0 \<or> microseconds w > 0
        then [fmt_i s] @ (if microseconds w > 0 then [''.'' @ fmt_i (microseconds w)] else [])
             @ [''S'']
        else [])"
    by (simp add: time_pieces_def h_def m_def s_def)
  show "time_pieces w = [] \<longleftrightarrow> seconds w = 0 \<and> microseconds w = 0"
    unfolding tp using nn b dec by auto
  show "time_pieces w \<noteq> [] \<Longrightarrow>
           concat (time_pieces w) \<noteq> []
           \<and> last (concat (time_pieces w)) \<in> {CHR ''H'', CHR ''M'', CHR ''S''}
           \<and> CHR ''T'' \<notin> set (concat (time_pieces w))"
    unfolding tp by (auto simp: fmt_i_no_T split: if_splits)
qed

lemma day_pieces_text:
  "concat (day_pieces w) = (if days w \<noteq> 0 then fmt_i (days w) @ ''D'' else [])"
  "length ([x] @ day_pieces w @ [y] @ ts) = 2 \<longleftrightarrow> days w = 0 \<and> ts = []"
  by (simp_all add: day_pieces_def)

lemma whole_days_iff:
  assumes "timedelta_ok w" "0 \<le> days w"
  shows "whole_days w \<longleftrightarrow> days w \<noteq> 0 \<and> seconds w = 0 \<and> microseconds w = 0"
proof -
  from assms have b: "0 \<le> days w" "0 \<le> seconds w" "0 \<le> microseconds w"
    by (simp_all add: timedelta_ok_def)
  have m: "total_microseconds w mod 86400000000 = seconds w * 1000000 + microseconds w"
    using total_nonneg(2)[OF assms] .
  show ?thesis
    unfolding whole_days_def m using b by (auto simp: total_microseconds_def)
qed

lemma duration_text_whole:
  assumes "timedelta_ok w" "0 \<le> days w" "whole_days w"
  shows "duration_text sign w = sign @ fmt_i (days w) @ ''D''"
  using assms whole_days_iff[OF assms(1,2)] by (simp add: duration_text_def day_pieces_text)

lemma duration_text_other:
  assumes "timedelta_ok w" "0 \<le> days w" "\<not> whole_days w"
  shows "\<exists>comps. duration_text sign w
                  = sign @ (if days w \<noteq> 0 then fmt_i (days w) @ ''D'' else []) @ ''T'' @ comps
                \<and> comps \<noteq> [] \<and> last comps \<in> {CHR ''H'', CHR ''M'', CHR ''S''}
                \<and> CHR ''T'' \<notin> set comps"
proof (cases "time_pieces w = []")
  case True
  with assms(3) whole_days_iff[OF assms(1,2)] time_pieces_shape(1)[OF assms(1)]
  have d0: "days w = 0" by simp
  have "duration_text sign w = sign @ ''T'' @ ''0S''"
    using assms(3) True d0 by (simp add: duration_text_def day_pieces_text day_pieces_def)
  then show ?thesis using d0 by simp
next
  case False
  have "duration_text sign w
          = sign @ (if days w \<noteq> 0 then fmt_i (days w) @ ''D'' else []) @ ''T''
            @ concat (time_pieces w)"
    using assms(3) False by (simp add: duration_text_def day_pieces_text)
  with time_pieces_shape(2)[OF assms(1) False] show ?thesis by blast
qed

lemma whole_days_total:
  assumes "timedelta_ok w" "0 \<le> days w"
  shows "(total_microseconds w \<noteq> 0 \<and> total_microseconds w mod 86400000000 = 0) = whole_days w"
proof -
  from assms have b: "0 \<le> seconds w" "0 \<le> microseconds w"
    by (simp_all add: timedelta_ok_def)
  show ?thesis
    unfolding whole_days_iff[OF assms] total_nonneg(2)[OF assms]
    using b by (auto simp: total_microseconds_def)
qed

text \<open>
  Claim C1 (as amended). Let \<open>m\<close> be the magnitude of a time span, in microseconds. If
  \<open>m\<close> is a non-zero exact multiple of one day, \<^verbatim>\<open>duration_to_string\<close> emits only the sign
  and the day segment, with no \<open>T\<close>. For every other span, the zero span included, the
  sign and the day segment (present when the day count is non-zero) are followed by \<open>T\<close>
  and at least one component, the last of which ends in \<open>H\<close>, \<open>M\<close> or \<open>S\<close>.
\<close>

theorem duration_to_string_segments:
  assumes "timedelta_ok v"
  shows "let m = \<bar>total_microseconds v\<bar>;
             sign = (if total_microseconds v < 0 then ''-P'' else ''P'');
             d = m div 86400000000
         in if m \<noteq> 0 \<and> m mod 86400000000 = 0
            then duration_to_string v = Inr (sign @ fmt_i d @ ''D'')
                 \<and> CHR ''T'' \<notin> set (sign @ fmt_i d @ ''D'')
            else \<exists>comps. duration_to_string v
                           = Inr (sign @ (if d \<noteq> 0 then fmt_i d @ ''D'' else []) @ ''T'' @ comps)
                    \<and> comps \<noteq> [] \<and> last comps \<in> {CHR ''H'', CHR ''M'', CHR ''S''}
                    \<and> CHR ''T'' \<notin> set comps"
proof -
  define sign where "sign = (if total_microseconds v < 0 then ''-P'' else ''P'')"
  have "\<exists>w. timedelta_ok w \<and> 0 \<le> days w \<and> total_microseconds w = \<bar>total_microseconds v\<bar>
            \<and> duration_to_string v = Inr (duration_text sign w)"
  proof (cases "days v < 0")
    case False
    then have d: "0 \<le> days v" by simp
    have "0 \<le> total_microseconds v" using total_nonneg(1)[OF assms d] .
    then show ?thesis
      using assms d duration_to_string_nonneg[OF d] by (intro exI[of _ v]) (simp add: sign_def)
  next
    case True
    from timedelta_neg_ok[OF assms True] obtain w where w: "timedelta_neg v = Inr w"
      "timedelta_ok w" "0 \<le> days w" "total_microseconds w = - total_microseconds v" by blast
    have "total_microseconds v < 0" using total_neg[OF assms True] .
    then show ?thesis
      using w duration_to_string_neg[OF True w(1)] by (intro exI[of _ w]) (simp add: sign_def)
  qed
  then obtain w where w: "timedelta_ok w" "0 \<le> days w"
    "total_microseconds w = \<bar>total_microseconds v\<bar>"
    "duration_to_string v = Inr (duration_text sign w)" by blast
  have c: "(\<bar>total_microseconds v\<bar> \<noteq> 0 \<and> \<bar>total_microseconds v\<bar> mod 86400000000 = 0)
             = whole_days w"
    using whole_days_total[OF w(1,2)] unfolding w(3) .
  have d: "\<bar>total_microseconds v\<bar> div 86400000000 = days w"
    using total_nonneg(3)[OF w(1,2)] unfolding w(3) .
  have noT: "CHR ''T'' \<notin> set (sign @ fmt_i (days w) @ ''D'')"
    by (simp add: sign_def fmt_i_no_T)
  show ?thesis
  proof (cases "whole_days w")
    case True
    show ?thesis
      unfolding Let_def c d sign_def[symmetric] w(4)
      using True duration_text_whole[OF w(1,2) True, of sign] noT by simp
  next
    case False
    show ?thesis
      unfolding Let_def c d sign_def[symmetric] w(4)
      using False duration_text_other[OF w(1,2) False, of sign] by simp
  qed
qed


theorem duration_to_string_segments_witness:
  "timedelta_ok \<lparr>days = 1, seconds = 0, microseconds = 0\<rparr>
   \<and> duration_to_string \<lparr>days = 1, seconds = 0, microseconds = 0\<rparr> = Inr ''P1D''
   \<and> CHR ''T'' \<notin> set ''P1D''
   \<and> timedelta_ok \<lparr>days = 0, seconds = 5400, microseconds = 0\<rparr>
   \<and> (\<exists>comps. duration_to_string \<lparr>days = 0, seconds = 5400, microseconds = 0\<rparr>
                 = Inr (''P'' @ ''T'' @ comps)
          \<and> comps \<noteq> [] \<and> last comps \<in> {CHR ''H'', CHR ''M'', CHR ''S''}
          \<and> CHR ''T'' \<notin> set comps)"
proof -
  have ok1: "timedelta_ok \<lparr>days = 1, seconds = 0, microseconds = 0\<rparr>"
    and ok2: "timedelta_ok \<lparr>days = 0, seconds = 5400, microseconds = 0\<rparr>"
    by (simp_all add: timedelta_ok_def)
  have f: "fmt_i 1 = ''1''" by code_simp
  have a: "duration_to_string \<lparr>days = 1, seconds = 0, microseconds = 0\<rparr> = Inr ''P1D''"
    using duration_to_string_segments[OF ok1] f
    by (simp add: total_microseconds_def Let_def)
  have b: "\<exists>comps. duration_to_string \<lparr>days = 0, seconds = 5400, microseconds = 0\<rparr>
                 = Inr (''P'' @ ''T'' @ comps)
          \<and> comps \<noteq> [] \<and> last comps \<in> {CHR ''H'', CHR ''M'', CHR ''S''}
          \<and> CHR ''T'' \<notin> set comps"
    using duration_to_string_segments[OF ok2]
    by (simp add: total_microseconds_def Let_def)
  from ok1 ok2 a b show ?thesis by simp
qed

text \<open>
  The zero span is an exact multiple of 86400 seconds with zero microseconds, and its
  encoding is \<^verbatim>\<open>PT0S\<close>: it has a time segment.
\<close>

theorem duration_to_string_zero_counterexample:
  "timedelta_ok \<lparr>days = 0, seconds = 0, microseconds = 0\<rparr>
   \<and> \<bar>total_microseconds \<lparr>days = 0, seconds = 0, microseconds = 0\<rparr>\<bar> mod 86400000000 = 0
   \<and> microseconds \<lparr>days = 0, seconds = 0, microseconds = 0\<rparr> = 0
   \<and> duration_to_string \<lparr>days = 0, seconds = 0, microseconds = 0\<rparr> = Inr ''PT0S''
   \<and> CHR ''T'' \<in> set ''PT0S''"
  by (simp add: timedelta_ok_def total_microseconds_def duration_to_string_def)

section \<open>Properties of the request pipeline\<close>

text \<open>
  Claim C4 (as amended). Whenever a stage inside \<^verbatim>\<open>generate_contexts\<close> (creating the
  input document, decomposing the envelope, generating the method contexts) raises a
  fault, \<^verbatim>\<open>generate_contexts\<close> does not raise: it sets \<open>in_error\<close> and \<open>out_error\<close> to
  that fault and \<open>in_object\<close> to \<^verbatim>\<open>None\<close> on the context as the stage left it, and returns
  exactly that one context. An exception that is not a fault propagates to the caller,
  with the context untouched by the handler.
\<close>

theorem generate_contexts_on_failure:
  assumes "create_in_document prot ctx cs = (Some e, c)
           \<or> (\<exists>c1. create_in_document prot ctx cs = (None, c1)
                  \<and> decompose_incoming_envelope prot c1 = (Some e, c))
           \<or> (\<exists>c1 c2. create_in_document prot ctx cs = (None, c1)
                  \<and> decompose_incoming_envelope prot c1 = (None, c2)
                  \<and> generate_method_contexts prot c2 = (Inl e, c))"
  shows "if is_fault e
         then generate_contexts prot ctx cs
                = (Inr [c\<lparr>in_object := None, in_error := Some e, out_error := Some e\<rparr>],
                   c\<lparr>in_object := None, in_error := Some e, out_error := Some e\<rparr>)
         else generate_contexts prot ctx cs = (Inl e, c)"
proof -
  from assms have "generate_contexts_try prot ctx cs = (Inl e, c)"
    by (auto simp: generate_contexts_try_def)
  then show ?thesis by (simp add: generate_contexts_def Let_def)
qed

theorem generate_contexts_on_failure_witness:
  "generate_contexts
     \<lparr>create_in_document = (\<lambda>c cs. (Some (Fault ''Client.XMLSyntaxError'' ''bad document''), c)),
      decompose_incoming_envelope = (\<lambda>c. (None, c)),
      generate_method_contexts = (\<lambda>c. (Inr [c], c))\<rparr>
     \<lparr>in_string = Some [''<x''], in_document = None, in_header_doc = None, in_body_doc = None,
      method_request_string = None, in_header = None, in_object = Some (), in_error = None,
      out_object = None, out_error = None, out_document = None, out_string = None,
      service_class = None\<rparr> None
   = (Inr [\<lparr>in_string = Some [''<x''], in_document = None, in_header_doc = None, in_body_doc = None,
      method_request_string = None, in_header = None, in_object = None,
      in_error = Some (Fault ''Client.XMLSyntaxError'' ''bad document''),
      out_object = None, out_error = Some (Fault ''Client.XMLSyntaxError'' ''bad document''),
      out_document = None, out_string = None, service_class = None\<rparr>],
      \<lparr>in_string = Some [''<x''], in_document = None, in_header_doc = None, in_body_doc = None,
      method_request_string = None, in_header = None, in_object = None,
      in_error = Some (Fault ''Client.XMLSyntaxError'' ''bad document''),
      out_object = None, out_error = Some (Fault ''Client.XMLSyntaxError'' ''bad document''),
      out_document = None, out_string = None, service_class = None\<rparr>)"
  using generate_contexts_on_failure
    [of "\<lparr>create_in_document = (\<lambda>c cs. (Some (Fault ''Client.XMLSyntaxError'' ''bad document''), c)),
      decompose_incoming_envelope = (\<lambda>c. (None, c)),
      generate_method_contexts = (\<lambda>c. (Inr [c], c))\<rparr>"
     "\<lparr>in_string = Some [''<x''], in_document = None, in_header_doc = None, in_body_doc = None,
      method_request_string = None, in_header = None, in_object = Some (), in_error = None,
      out_object = None, out_error = None, out_document = None, out_string = None,
      service_class = None\<rparr>"
     None "Fault ''Client.XMLSyntaxError'' ''bad document''"
     "\<lparr>in_string = Some [''<x''], in_document = None, in_header_doc = None, in_body_doc = None,
      method_request_string = None, in_header = None, in_object = Some (), in_error = None,
      out_object = None, out_error = None, out_document = None, out_string = None,
      service_class = None\<rparr>"]
  by simp

text \<open>
  A stage that raises an exception other than a fault (here \<^verbatim>\<open>create_in_document\<close>, with
  a \<^verbatim>\<open>ValueError\<close>): \<^verbatim>\<open>generate_contexts\<close> raises, and the caller receives no context.
\<close>

theorem generate_contexts_propagates_counterexample:
  "generate_contexts
     \<lparr>create_in_document = (\<lambda>c cs. (Some (ValueError ''unknown encoding''), c)),
      decompose_incoming_envelope = (\<lambda>c. (None, c)),
      generate_method_contexts = (\<lambda>c. (Inr [c], c))\<rparr>
     \<lparr>in_string = Some [''<x''], in_document = None, in_header_doc = None, in_body_doc = None,
      method_request_string = None, in_header = None, in_object = None, in_error = None,
      out_object = None, out_error = None, out_document = None, out_string = None,
      service_class = (None :: unit option)\<rparr> (Some ''no-such-charset'')
   = (Inl (ValueError ''unknown encoding''),
      \<lparr>in_string = Some [''<x''], in_document = None, in_header_doc = None, in_body_doc = None,
      method_request_string = None, in_header = None, in_object = None, in_error = None,
      out_object = None, out_error = None, out_document = None, out_string = None,
      service_class = None\<rparr>)"
  by (simp add: generate_contexts_def generate_contexts_try_def)

text \<open>
  When the body of \<^verbatim>\<open>get_out_string\<close> returns, \<open>out_string\<close> is set. If it was set at
  entry, the call returns at once with the context untouched and no event fired.
  Otherwise, when the body runs to its end, \<open>out_string\<close> is what the body left if that
  is set, and the single empty chunk if it is still unset; nothing else changes.
\<close>

lemma get_out_string_body_returned:
  "(get_out_string prot ctx acts = (Returned, ctx', evs) \<longrightarrow> out_string ctx' \<noteq> None)
   \<and> (out_string ctx \<noteq> None \<longrightarrow> get_out_string prot ctx acts = (Returned, ctx, []))
   \<and> (out_string ctx = None \<and> get_out_string_body prot ctx acts = (Returned, c, evs) \<longrightarrow>
        get_out_string prot ctx acts
          = (Returned,
             c\<lparr>out_string := (case out_string c of None \<Rightarrow> Some [''''] | Some s \<Rightarrow> Some s)\<rparr>,
             evs))"
  by (auto simp: get_out_string_def split: prod.splits status.splits if_splits)

lemma get_out_string_body_returned_example:
  "get_out_string
     \<lparr>serialize = (\<lambda>c. (Inr None, c\<lparr>out_document := Some ()\<rparr>)),
      gen_send = (\<lambda>g y c. (Inl StopIteration :: exn + nat, c)),
      gen_throw = (\<lambda>g e c. (Inl StopIteration, c)),
      create_out_string = (\<lambda>c. (None, c)),
      fire_event = (\<lambda>n c. (None, c))\<rparr>
     \<lparr>in_string = Some [''x''], in_document = None, in_header_doc = None, in_body_doc = None,
      method_request_string = None, in_header = None, in_object = None, in_error = None,
      out_object = None, out_error = None, out_document = None, out_string = None,
      service_class = None\<rparr> []
   = (Returned,
      \<lparr>in_string = Some [''x''], in_document = None, in_header_doc = None, in_body_doc = None,
       method_request_string = None, in_header = None, in_object = None, in_error = None,
       out_object = None, out_error = None, out_document = Some (), out_string = Some [''''],
       service_class = None\<rparr>, [])"
proof -
  let ?prot = "\<lparr>serialize = (\<lambda>c. (Inr None, c\<lparr>out_document := Some ()\<rparr>)),
      gen_send = (\<lambda>g y c. (Inl StopIteration :: exn + nat, c)),
      gen_throw = (\<lambda>g e c. (Inl StopIteration, c)),
      create_out_string = (\<lambda>c. (None, c)),
      fire_event = (\<lambda>n c. (None, c))\<rparr>"
  let ?ctx = "\<lparr>in_string = Some [''x''], in_document = None, in_header_doc = None,
      in_body_doc = None, method_request_string = None, in_header = None, in_object = None,
      in_error = None, out_object = None, out_error = None, out_document = None,
      out_string = None, service_class = None :: unit option\<rparr>"
  have b: "get_out_string_body ?prot ?ctx [] = (Returned, ?ctx\<lparr>out_document := Some ()\<rparr>, [])"
    by (simp add: get_out_string_body_def serialize_document_def fire_document_event_def
          fire_string_event_def)
  have n: "out_string ?ctx = None" by simp
  from get_out_string_body_returned[of ?prot ?ctx "[]" _ "[]" "?ctx\<lparr>out_document := Some ()\<rparr>"] b n
  show ?thesis by simp
qed

text \<open>
  Claim C6 (what the code does). The loop that drives a streaming serializer handles
  \<open>Break\<close> only. When the producer finishes on its own, the \<open>StopIteration\<close> of
  \<^verbatim>\<open>ret.send(y)\<close> escapes from the body of \<^verbatim>\<open>get_out_string\<close>: the coroutine ends, which
  its driver sees as completion, but no event was fired, \<^verbatim>\<open>create_out_string\<close> was not
  called and \<open>out_string\<close> is still unset. (The \<open>StopIteration\<close> of \<^verbatim>\<open>ret.throw\<close>, in
  the handler beside it, is caught.)
\<close>

theorem get_out_string_producer_finishes:
  "get_out_string
     \<lparr>serialize = (\<lambda>c. (Inr (Some (0::nat)), c)),
      gen_send = (\<lambda>g y c. (Inl StopIteration, c)),
      gen_throw = (\<lambda>g e c. (Inl StopIteration, c)),
      create_out_string = (\<lambda>c. (None, c\<lparr>out_string := Some [''doc'']\<rparr>)),
      fire_event = (\<lambda>n c. (None, c))\<rparr>
     \<lparr>in_string = Some [''x''], in_document = None, in_header_doc = None, in_body_doc = None,
      method_request_string = None, in_header = None, in_object = Some (), in_error = None,
      out_object = Some (), out_error = None, out_document = None, out_string = None,
      service_class = Some ()\<rparr>
     [Send ()]
   = (Raised StopIteration,
      \<lparr>in_string = Some [''x''], in_document = None, in_header_doc = None, in_body_doc = None,
       method_request_string = None, in_header = None, in_object = Some (), in_error = None,
       out_object = Some (), out_error = None, out_document = None, out_string = None,
       service_class = Some ()\<rparr>, [])
   \<and> driver_sees_completion (Raised StopIteration)"
  by (simp add: get_out_string_def get_out_string_body_def serialize_document_def)






section \<open>Properties of the binary codecs\<close>

lemma hex_table_all: "list_all (\<lambda>n. to_int (hex_digit n) = Some n) [0..<16]"
  by code_simp

lemma to_int_hex_digit: "n < 16 \<Longrightarrow> to_int (hex_digit n) = Some n"
  using hex_table_all by (simp add: list_all_iff)

lemma b64_table_all:
  "list_all (\<lambda>n. a2b (b2a n) = Some n \<and> (of_char (b2a n) :: nat) \<le> 127
      \<and> b2a n \<noteq> CHR 0x0D \<and> b2a n \<noteq> CHR 0x0A \<and> b2a n \<noteq> CHR '' '' \<and> b2a n \<noteq> CHR ''=''
      \<and> b2a n \<noteq> CHR ''-'' \<and> b2a n \<noteq> CHR ''_'') [0..<64]"
  by code_simp

lemma b2a_facts:
  assumes "n < 64"
  shows "a2b (b2a n) = Some n" "\<not> (of_char (b2a n) :: nat) > 127"
    "b2a n \<noteq> CHR 0x0D" "b2a n \<noteq> CHR 0x0A" "b2a n \<noteq> CHR '' ''" "b2a n \<noteq> CHR ''=''"
    "b2a n \<noteq> CHR ''-''" "b2a n \<noteq> CHR ''_''"
  using b64_table_all assms by (simp_all add: list_all_iff not_less)

lemma a2b_loop_alpha:
  assumes "n < 64"
  shows "a2b_loop qp lc lb acc (b2a n # cs) =
     (if lb + 6 \<ge> 8
      then a2b_loop ((qp + 1) mod 4) ((lc * 64 + n) mod 2 ^ (lb + 6 - 8)) (lb + 6 - 8)
             (acc @ [char_of ((lc * 64 + n) div 2 ^ (lb + 6 - 8) mod 256)]) cs
      else a2b_loop ((qp + 1) mod 4) (lc * 64 + n) (lb + 6) acc cs)"
  using b2a_facts[OF assms] by (simp add: a2b_loop.simps(2) Let_def)

lemma sextets:
  fixes a b c :: nat
  assumes "a < 256" "b < 256" "c < 256"
  shows "a div 4 < 64" "(a mod 4) * 16 + b div 16 < 64" "(b mod 16) * 4 + c div 64 < 64"
    "c mod 64 < 64" "(a mod 4) * 16 < 64" "(b mod 16) * 4 < 64"
  using assms by simp_all

lemma regroup:
  fixes a b c :: nat
  assumes "a < 256" "b < 256" "c < 256"
  shows "(a div 4 * 64 + (a mod 4 * 16 + b div 16)) div 16 mod 256 = a"
    and "(a div 4 * 64 + (a mod 4 * 16 + b div 16)) mod 16 = b div 16"
    and "(b div 16 * 64 + (b mod 16 * 4 + c div 64)) div 4 mod 256 = b"
    and "(b div 16 * 64 + (b mod 16 * 4 + c div 64)) mod 4 = c div 64"
    and "(c div 64 * 64 + c mod 64) mod 256 = c"
    and "(a div 4 * 64 + a mod 4 * 16) div 16 mod 256 = a"
    and "(a div 4 * 64 + a mod 4 * 16) mod 16 = 0"
    and "(b div 16 * 64 + b mod 16 * 4) div 4 mod 256 = b"
    and "(b div 16 * 64 + b mod 16 * 4) mod 4 = 0"
proof -
  have da: "a = a div 4 * 4 + a mod 4" and db: "b = b div 16 * 16 + b mod 16" by simp_all
  have ea: "a div 4 * 64 + (a mod 4 * 16 + b div 16) = a * 16 + b div 16" using da by arith
  have eb: "b div 16 * 64 + (b mod 16 * 4 + c div 64) = b * 4 + c div 64" using db by arith
  have ea0: "a div 4 * 64 + a mod 4 * 16 = a * 16" using da by arith
  have eb0: "b div 16 * 64 + b mod 16 * 4 = b * 4" using db by arith
  have sb: "b div 16 < 16" and sc: "c div 64 < 4" using assms by simp_all
  show "(a div 4 * 64 + (a mod 4 * 16 + b div 16)) div 16 mod 256 = a"
    unfolding ea using sb assms(1) by simp
  show "(a div 4 * 64 + (a mod 4 * 16 + b div 16)) mod 16 = b div 16"
    unfolding ea using sb by simp
  show "(b div 16 * 64 + (b mod 16 * 4 + c div 64)) div 4 mod 256 = b"
    unfolding eb using sc assms(2) by simp
  show "(b div 16 * 64 + (b mod 16 * 4 + c div 64)) mod 4 = c div 64"
    unfolding eb using sc by simp
  show "(c div 64 * 64 + c mod 64) mod 256 = c" using assms(3) by simp
  show "(a div 4 * 64 + a mod 4 * 16) div 16 mod 256 = a" unfolding ea0 using assms(1) by simp
  show "(a div 4 * 64 + a mod 4 * 16) mod 16 = 0" unfolding ea0 by simp
  show "(b div 16 * 64 + b mod 16 * 4) div 4 mod 256 = b" unfolding eb0 using assms(2) by simp
  show "(b div 16 * 64 + b mod 16 * 4) mod 4 = 0" unfolding eb0 by simp
qed

lemma a2b_steps:
  assumes "n < 64"
  shows "a2b_loop 0 lc 0 acc (b2a n # cs) = a2b_loop 1 (lc * 64 + n) 6 acc cs"
    and "a2b_loop 1 lc 6 acc (b2a n # cs)
           = a2b_loop 2 ((lc * 64 + n) mod 16) 4 (acc @ [char_of ((lc * 64 + n) div 16 mod 256)]) cs"
    and "a2b_loop 2 lc 4 acc (b2a n # cs)
           = a2b_loop 3 ((lc * 64 + n) mod 4) 2 (acc @ [char_of ((lc * 64 + n) div 4 mod 256)]) cs"
    and "a2b_loop 3 lc 2 acc (b2a n # cs)
           = a2b_loop 0 0 0 (acc @ [char_of ((lc * 64 + n) mod 256)]) cs"
proof -
  note st = a2b_loop_alpha[OF assms]
  show "a2b_loop 0 lc 0 acc (b2a n # cs) = a2b_loop 1 (lc * 64 + n) 6 acc cs"
    by (subst st) simp
  show "a2b_loop 1 lc 6 acc (b2a n # cs)
           = a2b_loop 2 ((lc * 64 + n) mod 16) 4 (acc @ [char_of ((lc * 64 + n) div 16 mod 256)]) cs"
    by (subst st, simp, (simp add: numeral_2_eq_2)?)
  show "a2b_loop 2 lc 4 acc (b2a n # cs)
           = a2b_loop 3 ((lc * 64 + n) mod 4) 2 (acc @ [char_of ((lc * 64 + n) div 4 mod 256)]) cs"
    by (subst st, simp, (simp add: numeral_3_eq_3)?)
  show "a2b_loop 3 lc 2 acc (b2a n # cs)
           = a2b_loop 0 0 0 (acc @ [char_of ((lc * 64 + n) mod 256)]) cs"
    by (subst st) simp
qed


lemma a2b_quad:
  assumes "a < 256" "b < 256" "c < 256"
  shows "a2b_loop 0 0 0 acc
           (b2a (a div 4) # b2a ((a mod 4) * 16 + b div 16) # b2a ((b mod 16) * 4 + c div 64)
              # b2a (c mod 64) # rest)
         = a2b_loop 0 0 0 (acc @ [char_of a, char_of b, char_of c]) rest"
proof -
  note sx = sextets[OF assms]
  note rg = regroup[OF assms]
  have "a2b_loop 0 0 0 acc
           (b2a (a div 4) # b2a ((a mod 4) * 16 + b div 16) # b2a ((b mod 16) * 4 + c div 64)
              # b2a (c mod 64) # rest)
        = a2b_loop 1 (a div 4) 6 acc
           (b2a ((a mod 4) * 16 + b div 16) # b2a ((b mod 16) * 4 + c div 64)
              # b2a (c mod 64) # rest)"
    using a2b_steps(1)[OF sx(1), of 0] by simp
  also have "\<dots> = a2b_loop 2 (b div 16) 4 (acc @ [char_of a])
           (b2a ((b mod 16) * 4 + c div 64) # b2a (c mod 64) # rest)"
    unfolding a2b_steps(2)[OF sx(2)] rg(1) rg(2) ..
  also have "\<dots> = a2b_loop 3 (c div 64) 2 ((acc @ [char_of a]) @ [char_of b])
           (b2a (c mod 64) # rest)"
    unfolding a2b_steps(3)[OF sx(3)] rg(3) rg(4) ..
  also have "\<dots> = a2b_loop 0 0 0 (((acc @ [char_of a]) @ [char_of b]) @ [char_of c]) rest"
    unfolding a2b_steps(4)[OF sx(4)] rg(5) ..
  finally show ?thesis by simp
qed

lemma b64_valid_pad: "b64_valid CHR ''=''"
  by (simp add: b64_valid_def)

lemma a2b_pad:
  "a2b_loop 2 lc lb acc (CHR ''='' # CHR ''='' # rest) = Inr acc"
  "a2b_loop 3 lc lb acc (CHR ''='' # rest) = Inr acc"
  by (simp_all add: a2b_loop.simps(2) b64_valid_pad a2b_finish_def)

lemma a2b_tail1:
  assumes "a < 256"
  shows "a2b_loop 0 0 0 acc
           (b2a (a div 4) # b2a ((a mod 4) * 16) # CHR ''='' # CHR ''='' # rest)
         = Inr (acc @ [char_of a])"
proof -
  note sx = sextets[OF assms assms assms]
  note rg = regroup[OF assms assms assms]
  have "a2b_loop 0 0 0 acc
           (b2a (a div 4) # b2a ((a mod 4) * 16) # CHR ''='' # CHR ''='' # rest)
        = a2b_loop 1 (a div 4) 6 acc (b2a ((a mod 4) * 16) # CHR ''='' # CHR ''='' # rest)"
    using a2b_steps(1)[OF sx(1), of 0] by simp
  also have "\<dots> = a2b_loop 2 0 4 (acc @ [char_of a]) (CHR ''='' # CHR ''='' # rest)"
    unfolding a2b_steps(2)[OF sx(5)] rg(6) rg(7) ..
  also have "\<dots> = Inr (acc @ [char_of a])" by (rule a2b_pad(1))
  finally show ?thesis .
qed

lemma a2b_tail2:
  assumes "a < 256" "b < 256"
  shows "a2b_loop 0 0 0 acc
           (b2a (a div 4) # b2a ((a mod 4) * 16 + b div 16) # b2a ((b mod 16) * 4) # CHR ''=''
              # rest)
         = Inr (acc @ [char_of a, char_of b])"
proof -
  note sx = sextets[OF assms assms(2)]
  note rg = regroup[OF assms assms(2)]
  have "a2b_loop 0 0 0 acc
           (b2a (a div 4) # b2a ((a mod 4) * 16 + b div 16) # b2a ((b mod 16) * 4) # CHR ''=''
              # rest)
        = a2b_loop 1 (a div 4) 6 acc
           (b2a ((a mod 4) * 16 + b div 16) # b2a ((b mod 16) * 4) # CHR ''='' # rest)"
    using a2b_steps(1)[OF sx(1), of 0] by simp
  also have "\<dots> = a2b_loop 2 (b div 16) 4 (acc @ [char_of a])
           (b2a ((b mod 16) * 4) # CHR ''='' # rest)"
    unfolding a2b_steps(2)[OF sx(2)] rg(1) rg(2) ..
  also have "\<dots> = a2b_loop 3 0 2 ((acc @ [char_of a]) @ [char_of b]) (CHR ''='' # rest)"
    unfolding a2b_steps(3)[OF sx(6)] rg(8) rg(9) ..
  also have "\<dots> = Inr ((acc @ [char_of a]) @ [char_of b])" by (rule a2b_pad(2))
  finally show ?thesis by simp
qed

lemma a2b_loop_encoded:
  assumes "\<forall>x\<in>set xs. x < 256"
  shows "a2b_loop 0 0 0 acc (b2a_base64 xs @ rest)
         = (if length xs mod 3 = 0 then a2b_loop 0 0 0 (acc @ map char_of xs) rest
            else Inr (acc @ map char_of xs))"
  using assms
proof (induction xs arbitrary: acc rule: b2a_base64.induct)
  case (1 a b c xs)
  then have lt: "a < 256" "b < 256" "c < 256" and r: "\<forall>x\<in>set xs. x < 256" by simp_all
  have "a2b_loop 0 0 0 acc (b2a_base64 (a # b # c # xs) @ rest)
          = a2b_loop 0 0 0 (acc @ [char_of a, char_of b, char_of c]) (b2a_base64 xs @ rest)"
    using a2b_quad[OF lt] by simp
  also have "\<dots> = (if length xs mod 3 = 0
                    then a2b_loop 0 0 0 ((acc @ [char_of a, char_of b, char_of c]) @ map char_of xs) rest
                    else Inr ((acc @ [char_of a, char_of b, char_of c]) @ map char_of xs))"
    using "1.IH"[OF r] .
  finally show ?case by simp
next
  case (2 a b)
  then show ?case using a2b_tail2[of a b] by simp
next
  case (3 a)
  then show ?case using a2b_tail1[of a] by simp
next
  case 4
  then show ?case by simp
qed

lemma of_char_lt_256: "(of_char c :: nat) < 256"
proof -
  have "(of_char c :: nat) = of_char c mod 256" by simp
  also have "\<dots> < 256" by simp
  finally show ?thesis .
qed

lemma map_char_of_of_char: "map char_of (map of_char s :: nat list) = s"
  by (induction s) simp_all

lemma a2b_base64_encoded:
  "a2b_base64 (b64encode s @ rest)
     = (if length s mod 3 = 0 then a2b_loop 0 0 0 s rest else Inr s)"
  using a2b_loop_encoded[of "map of_char s" "[]" rest]
  by (simp add: a2b_base64_def b64encode_def of_char_lt_256 map_char_of_of_char)

lemma b64decode_b64encode: "b64decode (b64encode s) = Inr s"
  using a2b_base64_encoded[of s "[]"] by (simp add: b64decode_def a2b_finish_def)


lemma hexlify_Cons:
  "hexlify (c # s) = hex_digit (of_char c div 16) # hex_digit (of_char c mod 16) # hexlify s"
  by (simp add: hexlify_def)

lemma length_hexlify: "length (hexlify s) = 2 * length s"
  by (induction s) (simp_all add: hexlify_Cons, simp add: hexlify_def)

lemma unhex_pairs_digits:
  assumes "to_int x = Some p" "to_int y = Some q"
  shows "unhex_pairs (x # y # rest)
          = (case unhex_pairs rest of Inl e \<Rightarrow> Inl e | Inr r \<Rightarrow> Inr (char_of (p * 16 + q) # r))"
  using assms by simp

lemma unhex_pairs_hexlify: "unhex_pairs (hexlify s) = Inr s"
proof (induction s)
  case Nil
  then show ?case by (simp add: hexlify_def)
next
  case (Cons c s)
  define n :: nat where "n = of_char c"
  have n: "n < 256" unfolding n_def by (rule of_char_lt_256)
  then have lt: "n div 16 < 16" "n mod 16 < 16" by simp_all
  have e: "char_of (n div 16 * 16 + n mod 16) = c" by (simp add: n_def)
  have "unhex_pairs (hexlify (c # s))
          = unhex_pairs (hex_digit (n div 16) # hex_digit (n mod 16) # hexlify s)"
    by (simp only: hexlify_Cons n_def)
  also have "\<dots> = (case unhex_pairs (hexlify s) of Inl e \<Rightarrow> Inl e
                     | Inr r \<Rightarrow> Inr (char_of (n div 16 * 16 + n mod 16) # r))"
    by (rule unhex_pairs_digits[OF to_int_hex_digit[OF lt(1)] to_int_hex_digit[OF lt(2)]])
  also have "\<dots> = Inr (c # s)" unfolding Cons.IH e by simp
  finally show ?case .
qed

lemma unhexlify_hexlify: "unhexlify (hexlify s) = Inr s"
  by (simp add: unhexlify_def length_hexlify unhex_pairs_hexlify)

lemma b2a_base64_chars:
  assumes "\<forall>x\<in>set xs. x < 256"
  shows "\<forall>c\<in>set (b2a_base64 xs). c \<noteq> CHR ''-'' \<and> c \<noteq> CHR ''_''"
  using assms
proof (induction xs rule: b2a_base64.induct)
  case (1 a b c rest)
  then have lt: "a < 256" "b < 256" "c < 256" by simp_all
  from 1 show ?case
    using sextets[OF lt] by (simp add: b2a_facts)
next
  case (2 a b)
  then have lt: "a < 256" "b < 256" by simp_all
  show ?case using sextets[OF lt lt(2)] by (simp add: b2a_facts)
next
  case (3 a)
  then have lt: "a < 256" by simp
  show ?case using sextets[OF lt lt lt] by (simp add: b2a_facts)
next
  case 4
  then show ?case by simp
qed

lemma urlsafe_translation_inverse:
  "map urlsafe_decode_translation (urlsafe_b64encode s) = b64encode s"
proof -
  have "\<forall>c\<in>set (b64encode s). c \<noteq> CHR ''-'' \<and> c \<noteq> CHR ''_''"
    unfolding b64encode_def by (rule b2a_base64_chars) (simp add: of_char_lt_256)
  then have "map (urlsafe_decode_translation \<circ> urlsafe_encode_translation) (b64encode s)
               = b64encode s"
    by (intro map_idI) (simp add: urlsafe_decode_translation_def urlsafe_encode_translation_def)
  then show ?thesis by (simp add: urlsafe_b64encode_def)
qed

lemma urlsafe_b64decode_b64encode: "urlsafe_b64decode (urlsafe_b64encode s) = Inr s"
  by (simp add: urlsafe_b64decode_def urlsafe_translation_inverse b64decode_b64encode)

lemma bytes_join_iter_str: "bytes_join (iter_str s) = s"
  by (induction s) (simp_all add: bytes_join_def iter_str_def)

lemma concat_iter_str: "concat (iter_str s) = s"
  by (induction s) (simp_all add: iter_str_def)

text \<open>
  Claim C3. For every sequence of byte chunks and each of the four variants (raw, hex,
  base64, URL-safe base64), whether the variant is declared on the field or suggested by
  the protocol, encoding succeeds, decoding the result succeeds, and the decoded chunks
  concatenate to the same bytes as the chunks encoded.
\<close>

theorem binary_round_trip:
  assumes "(if k = Some BINARY_ENCODING_USE_DEFAULT then sg else k)
             \<in> {None, Some BINARY_ENCODING_HEX, Some BINARY_ENCODING_BASE64,
                 Some BINARY_ENCODING_URLSAFE_BASE64}"
  shows "\<exists>s r. byte_array_to_string k b sg = Inr s
            \<and> byte_array_from_string k s sg = Inr r
            \<and> concat r = concat b"
proof -
  define k' where "k' = (if k = Some BINARY_ENCODING_USE_DEFAULT then sg else k)"
  have enc: "byte_array_to_string k b sg
              = (case binary_encoding_handlers k' of None \<Rightarrow> Inl KeyError | Some h \<Rightarrow> Inr (h b))"
    and dec: "\<And>s. byte_array_from_string k s sg
              = (case binary_decoding_handlers k' of None \<Rightarrow> Inl KeyError | Some h \<Rightarrow> h s)"
    by (simp_all add: byte_array_to_string_def byte_array_from_string_def k'_def)
  from assms have "k' \<in> {None, Some BINARY_ENCODING_HEX, Some BINARY_ENCODING_BASE64,
                 Some BINARY_ENCODING_URLSAFE_BASE64}"
    by (simp only: k'_def)
  then consider "k' = None" | "k' = Some BINARY_ENCODING_HEX"
    | "k' = Some BINARY_ENCODING_BASE64" | "k' = Some BINARY_ENCODING_URLSAFE_BASE64"
    by blast
  then show ?thesis
  proof cases
    case 1
    then show ?thesis unfolding enc dec
      by (simp add: binary_encoding_handlers_def binary_decoding_handlers_def)
  next
    case 2
    then show ?thesis unfolding enc dec
      by (simp add: binary_encoding_handlers_def binary_decoding_handlers_def
            ByteArray_to_hex_def ByteArray_from_hex_def concat_iter_str unhexlify_hexlify
            bytes_join_def)
  next
    case 3
    then show ?thesis unfolding enc dec
      by (simp add: binary_encoding_handlers_def binary_decoding_handlers_def
            ByteArray_to_base64_def ByteArray_from_base64_def concat_iter_str
            b64decode_b64encode bytes_join_def)
  next
    case 4
    then show ?thesis unfolding enc dec
      by (simp add: binary_encoding_handlers_def binary_decoding_handlers_def
            ByteArray_to_urlsafe_base64_def ByteArray_from_urlsafe_base64_def
            concat_iter_str urlsafe_b64decode_b64encode bytes_join_def)
  qed
qed


theorem binary_round_trip_witness:
  "byte_array_to_string (Some BINARY_ENCODING_HEX) [[CHR 0x01], [CHR 0x02]] None = Inr ''0102''
   \<and> byte_array_from_string (Some BINARY_ENCODING_HEX) ''0102'' None = Inr [[CHR 0x01, CHR 0x02]]
   \<and> (\<exists>s r. byte_array_to_string (Some BINARY_ENCODING_USE_DEFAULT) [''hel'', ''lo'']
                 (Some BINARY_ENCODING_BASE64) = Inr s
            \<and> byte_array_from_string (Some BINARY_ENCODING_USE_DEFAULT) s
                 (Some BINARY_ENCODING_BASE64) = Inr r
            \<and> concat r = ''hello'')"
proof -
  have a: "byte_array_to_string (Some BINARY_ENCODING_HEX) [[CHR 0x01], [CHR 0x02]] None
             = Inr ''0102''"
    by code_simp
  have b: "byte_array_from_string (Some BINARY_ENCODING_HEX) ''0102'' None
             = Inr [[CHR 0x01, CHR 0x02]]"
    by code_simp
  from binary_round_trip[of "Some BINARY_ENCODING_USE_DEFAULT" "Some BINARY_ENCODING_BASE64"
      "[''hel'', ''lo'']"] a b
  show ?thesis by simp
qed

text \<open>
  Claim C5 (what the code does). Only \<^verbatim>\<open>from_base64\<close> turns the \<^verbatim>\<open>TypeError\<close> of the
  library decoder into a validation error carrying the input. \<^verbatim>\<open>from_hex\<close> and
  \<^verbatim>\<open>from_urlsafe_base64\<close> have no handler: on malformed input the \<^verbatim>\<open>TypeError\<close> itself
  reaches the caller.
\<close>

theorem binary_decoding_errors:
  "ByteArray_from_hex ''zz'' = Inl (TypeError ''Non-hexadecimal digit found'')
   \<and> ByteArray_from_hex ''0'' = Inl (TypeError ''Odd-length string'')
   \<and> ByteArray_from_urlsafe_base64 ''A'' = Inl (TypeError ''Incorrect padding'')
   \<and> ByteArray_from_base64 ''A'' = Inl (ValidationError ''A'' default_validation_msg)
   \<and> byte_array_from_string (Some BINARY_ENCODING_HEX) ''zz'' None
        = Inl (TypeError ''Non-hexadecimal digit found'')
   \<and> \<not> is_validation_error (TypeError ''Non-hexadecimal digit found'')"
  by code_simp

section \<open>Properties of the streaming encoder\<close>

lemma read_chunks_empty: "read_chunks [] = []"
  by (subst read_chunks.simps) simp

lemma read_chunks_nonempty:
  "s \<noteq> [] \<Longrightarrow> read_chunks s = b64encode (take 16384 s) # read_chunks (drop 16384 s)"
  by (subst read_chunks.simps) (simp add: Let_def)

lemma read_chunks_one:
  assumes "s \<noteq> []" "length s \<le> 16384"
  shows "read_chunks s = [b64encode s]"
  using assms by (simp add: read_chunks_nonempty read_chunks_empty)

lemma b64decode_first_chunk:
  assumes "length s mod 3 \<noteq> 0"
  shows "b64decode (b64encode s @ rest) = Inr s"
  using assms by (simp add: b64decode_def a2b_base64_encoded)

lemma b64decode_read_chunks_long:
  assumes "length s > 16384"
  shows "b64decode (concat (read_chunks s)) = Inr (take 16384 s)"
proof -
  from assms have ne: "s \<noteq> []" by auto
  have l: "length (take 16384 s) = 16384" using assms by simp
  have m: "length (take 16384 s) mod 3 \<noteq> 0" unfolding l by simp
  show ?thesis
    unfolding read_chunks_nonempty[OF ne] concat.simps
    by (rule b64decode_first_chunk[OF m])
qed

lemma b64decode_read_chunks_short:
  assumes "length s \<le> 16384"
  shows "b64decode (concat (read_chunks s)) = Inr s"
proof (cases "s = []")
  case True
  then show ?thesis by (simp add: read_chunks_empty b64decode_def a2b_base64_def a2b_finish_def)
next
  case False
  then show ?thesis using assms by (simp add: read_chunks_one b64decode_b64encode)
qed

lemma length_b2a_base64: "length (b2a_base64 xs) = 4 * ((length xs + 2) div 3)"
proof (induction xs rule: b2a_base64.induct)
  case (1 a b c rest)
  have "(length (a # b # c # rest) + 2) div 3 = (length rest + 2) div 3 + 1"
    by simp
  with 1 show ?case by simp
qed simp_all

lemma length_b64encode: "length (b64encode s) = 4 * ((length s + 2) div 3)"
  by (simp add: b64encode_def length_b2a_base64)

text \<open>
  Claim C2 (what the code does). The chunk size \<^verbatim>\<open>0x4000 = 16384\<close> is a multiple of 4
  but not of 3, the input block size of base64, so every full chunk is encoded with
  padding. For a file of up to 16384 bytes the single chunk decodes to the file
  (\<open>b64decode_read_chunks_short\<close>). For a longer file the decoder stops at the padding
  that ends the first chunk (\<open>b64decode_read_chunks_long\<close>): a file of 16385 bytes is
  yielded as two chunks whose concatenation decodes to the first 16384 bytes only, and
  is not the base64 encoding of the file.
\<close>

theorem File_to_base64_second_chunk_lost:
  "(case File_to_base64
           \<lparr>files = [''/tmp/f'' \<mapsto> replicate 16385 (CHR ''a'')], denied = (\<lambda>p. False),
            tmpdir = ''/tmp'', tmpnames = []\<rparr>
           (Some \<lparr>name = Some ''f'', path = Some ''/tmp/f'', type = ''application/octet-stream'',
                  data = None, handle = None\<rparr>) of
      Inl e \<Rightarrow> False
    | Inr chunks \<Rightarrow>
        length chunks = 2
        \<and> b64decode (concat chunks) = Inr (replicate 16384 (CHR ''a''))
        \<and> concat chunks \<noteq> b64encode (replicate 16385 (CHR ''a'')))
   \<and> replicate 16384 (CHR ''a'') \<noteq> replicate 16385 (CHR ''a'')"
proof -
  let ?s = "replicate 16385 (CHR ''a'')"
  have d: "b64decode (concat (read_chunks ?s)) = Inr (replicate 16384 (CHR ''a''))"
    using b64decode_read_chunks_long[of ?s] by simp
  have ne: "?s \<noteq> []" by simp
  have dr: "drop 16384 ?s = [CHR ''a'']" by simp
  have n: "length (read_chunks ?s) = 2"
    unfolding read_chunks_nonempty[OF ne] dr by (simp add: read_chunks_one)
  have neq: "replicate 16384 (CHR ''a'') \<noteq> ?s"
  proof
    assume "replicate 16384 (CHR ''a'') = ?s"
    then have "length (replicate 16384 (CHR ''a'')) = length ?s" by (rule arg_cong)
    then show False by simp
  qed
  have "length (concat (read_chunks ?s)) = 21852"
    unfolding read_chunks_nonempty[OF ne] dr
    by (simp add: read_chunks_one length_b64encode)
  moreover have "length (b64encode ?s) = 21848" by (simp add: length_b64encode)
  ultimately have c: "concat (read_chunks ?s) \<noteq> b64encode ?s" by auto
  show ?thesis using d n neq c by (simp add: File_to_base64_def)
qed

end
